theory Spec2Isabelle
  imports Main "HOL-Library.Sublist"
begin

section \<open>Python strings and paths\<close>

text \<open>
  A Python \<open>str\<close> is modelled by the bytes of its UTF-8 encoding, so that the non-ASCII
  signs of the progress messages can be written down and \<open>stdout\<close> is the byte stream the
  terminal receives. \<open>a + b\<close> and f-strings are \<open>@\<close>, \<open>a in b\<close> is \<open>sublist a b\<close>.
\<close>

definition digit_char :: "nat \<Rightarrow> char" where
  "digit_char d = char_of (48 + d)"

function str_nat :: "nat \<Rightarrow> string" where
  "str_nat n = (if n < 10 then [digit_char n] else str_nat (n div 10) @ [digit_char (n mod 10)])"
  by pat_completeness auto
termination
  by (relation "measure id") auto

declare str_nat.simps [simp del]

text \<open>\<open>str(i)\<close> and \<open>{i}\<close> in an f-string, for an integer \<open>i\<close>.\<close>

definition str_int :: "int \<Rightarrow> string" where
  "str_int i = (if i < 0 then CHR ''-'' # str_nat (nat (- i)) else str_nat (nat i))"

text \<open>
  The code points for which \<open>str.isspace\<close> holds, each as its UTF-8 encoding:
  U+0009..U+000D, U+001C..U+0020, U+0085, U+00A0, U+1680, U+2000..U+200A, U+2028, U+2029,
  U+202F, U+205F and U+3000.
\<close>

definition whitespace :: "string list" where
  "whitespace =
     [[CHR 0x09], [CHR 0x0A], [CHR 0x0B], [CHR 0x0C], [CHR 0x0D],
      [CHR 0x1C], [CHR 0x1D], [CHR 0x1E], [CHR 0x1F], [CHR 0x20],
      [CHR 0xC2, CHR 0x85], [CHR 0xC2, CHR 0xA0], [CHR 0xE1, CHR 0x9A, CHR 0x80],
      [CHR 0xE2, CHR 0x80, CHR 0x80], [CHR 0xE2, CHR 0x80, CHR 0x81],
      [CHR 0xE2, CHR 0x80, CHR 0x82], [CHR 0xE2, CHR 0x80, CHR 0x83],
      [CHR 0xE2, CHR 0x80, CHR 0x84], [CHR 0xE2, CHR 0x80, CHR 0x85],
      [CHR 0xE2, CHR 0x80, CHR 0x86], [CHR 0xE2, CHR 0x80, CHR 0x87],
      [CHR 0xE2, CHR 0x80, CHR 0x88], [CHR 0xE2, CHR 0x80, CHR 0x89],
      [CHR 0xE2, CHR 0x80, CHR 0x8A], [CHR 0xE2, CHR 0x80, CHR 0xA8],
      [CHR 0xE2, CHR 0x80, CHR 0xA9], [CHR 0xE2, CHR 0x80, CHR 0xAF],
      [CHR 0xE2, CHR 0x81, CHR 0x9F], [CHR 0xE3, CHR 0x80, CHR 0x80]]"

lemma whitespace_nonempty: "w \<in> set whitespace \<Longrightarrow> 0 < length w"
  by (auto simp: whitespace_def)

function lstrip :: "string \<Rightarrow> string" where
  "lstrip s =
     (case find (\<lambda>w. prefix w s) whitespace of
        None \<Rightarrow> s
      | Some w \<Rightarrow> lstrip (drop (length w) s))"
  by pat_completeness auto
termination
proof (relation "measure length")
  fix s w
  assume "find (\<lambda>w. prefix w s) whitespace = Some w"
  then have "w \<in> set whitespace" and "prefix w s"
    by (auto simp: find_Some_iff)
  then have "w \<noteq> []" and "length w \<le> length s"
    using whitespace_nonempty [of w] by (simp_all add: prefix_length_le)
  then have "length s - length w < length s"
    by (cases w) auto
  then show "(drop (length w) s, s) \<in> measure length"
    by simp
qed simp

function rstrip :: "string \<Rightarrow> string" where
  "rstrip s =
     (case find (\<lambda>w. suffix w s) whitespace of
        None \<Rightarrow> s
      | Some w \<Rightarrow> rstrip (take (length s - length w) s))"
  by pat_completeness auto
termination
proof (relation "measure length")
  fix s w
  assume "find (\<lambda>w. suffix w s) whitespace = Some w"
  then have "w \<in> set whitespace" and "suffix w s"
    by (auto simp: find_Some_iff)
  then have "w \<noteq> []" and "length w \<le> length s"
    using whitespace_nonempty [of w] by (simp_all add: suffix_length_le)
  then have "length s - length w < length s"
    by (cases w) auto
  then show "(take (length s - length w) s, s) \<in> measure length"
    by simp
qed simp

declare lstrip.simps [simp del] rstrip.simps [simp del]

text \<open>\<open>s.strip()\<close>: leading and trailing whitespace removed.\<close>

definition strip :: "string \<Rightarrow> string" where
  "strip s = rstrip (lstrip s)"

text \<open>
  \<open>s.lower()\<close> on the ASCII letters. Other bytes are left as they are; the one use of
  \<open>lower\<close> compares its result with \<open>'y'\<close>, and \<open>Y\<close> is the only other character that
  lower-cases to \<open>y\<close>.
\<close>

definition lower_char :: "char \<Rightarrow> char" where
  "lower_char c =
     (let n = (of_char c :: nat) in if 65 \<le> n \<and> n \<le> 90 then char_of (n + 32) else c)"

definition lower :: "string \<Rightarrow> string" where
  "lower s = map lower_char s"

text \<open>\<open>os.path.join(a, b)\<close> of \<open>posixpath\<close>.\<close>

definition path_join :: "string \<Rightarrow> string \<Rightarrow> string" where
  "path_join a b =
     (if prefix ''/'' b then b
      else if a = [] \<or> suffix ''/'' a then a @ b
      else a @ ''/'' @ b)"

text \<open>The signs that open the progress messages, as UTF-8.\<close>

definition check_mark :: string where
  "check_mark = [CHR 0xE2, CHR 0x9C, CHR 0x85]"

definition warning_sign :: string where
  "warning_sign = [CHR 0xE2, CHR 0x9A, CHR 0xA0, CHR 0xEF, CHR 0xB8, CHR 0x8F]"

definition package_sign :: string where
  "package_sign = [CHR 0xF0, CHR 0x9F, CHR 0x93, CHR 0xA6]"

definition cross_mark :: string where
  "cross_mark = [CHR 0xE2, CHR 0x9D, CHR 0x8C]"

definition party_popper :: string where
  "party_popper = [CHR 0xF0, CHR 0x9F, CHR 0x8E, CHR 0x89]"

section \<open>The data and the world around the program\<close>

text \<open>
  A repository as the hosting API describes it: the keys of the JSON object that the
  program reads.
\<close>

record repo =
  name :: string
  clone_url :: string
  ssh_url :: string
  fork :: bool
  archived :: bool

record params =
  page :: nat
  per_page :: nat
  type :: string
  sort :: string
  direction :: string

record request =
  url :: string
  params :: params

text \<open>
  A response. \<open>json\<close> is how \<open>response.json()\<close> ends: \<open>Inr\<close> of the decoded body, a list
  of repositories, or \<open>Inl m\<close> when the body cannot be decoded and the call raises a decode
  error with the message \<open>m\<close>.
\<close>

record response =
  status_code :: int
  "text" :: string
  json :: "string + repo list"

text \<open>What \<open>subprocess.run\<close> is called with, and how the call ends.\<close>

record invocation =
  argv :: "string list"
  capture_output :: bool
  text_mode :: bool
  timeout :: "nat option"
  env :: "(string \<rightharpoonup> string) option"

datatype completion =
  Completed int string string
| TimeoutExpired
| FileNotFoundError
| OtherException string

datatype exn = ValueError string | JSONDecodeError string | OSError string | EOFError

text \<open>
  The world the program runs in. \<open>fs\<close> is the set of paths that exist, \<open>environ\<close> the
  process environment, \<open>stdin\<close> the lines still to be read and \<open>stdout\<close> what has been
  printed. \<open>server\<close> is the sequence of responses the listing endpoint will still give, one
  for each request, and \<open>requests\<close> the requests sent so far. \<open>child\<close> says how a child
  process ends and what it leaves on disk, and \<open>spawned\<close> lists the calls of
  \<open>subprocess.run\<close> so far. \<open>mkdir\<close> says how creating a directory ends on a given disk:
  \<open>Inl m\<close> is an \<open>OSError\<close> with the message \<open>m\<close>, \<open>Inr f\<close> the disk afterwards. \<open>abspath\<close> is
  \<open>os.path.abspath\<close> in the current directory.
\<close>

record world =
  fs :: "string set"
  environ :: "string \<rightharpoonup> string"
  stdin :: "string list"
  stdout :: string
  server :: "nat \<Rightarrow> response"
  requests :: "request list"
  child :: "invocation \<Rightarrow> string set \<Rightarrow> completion \<times> string set"
  spawned :: "invocation list"
  mkdir :: "string \<Rightarrow> string set \<Rightarrow> string + string set"
  abspath :: "string \<Rightarrow> string"

definition print :: "string \<Rightarrow> world \<Rightarrow> world" where
  "print s w = w\<lparr>stdout := stdout w @ s @ [CHR 0x0A]\<rparr>"

text \<open>\<open>print(s, end="")\<close>\<close>

definition print_end :: "string \<Rightarrow> world \<Rightarrow> world" where
  "print_end s w = w\<lparr>stdout := stdout w @ s\<rparr>"

text \<open>\<open>self.session.get(url, params=params)\<close>: the next response of the server.\<close>

definition session_get :: "request \<Rightarrow> world \<Rightarrow> response \<times> world" where
  "session_get r w =
     (server w 0, w\<lparr>server := (\<lambda>i. server w (Suc i)), requests := requests w @ [r]\<rparr>)"

text \<open>\<open>subprocess.run\<close>\<close>

definition subprocess_run :: "invocation \<Rightarrow> world \<Rightarrow> completion \<times> world" where
  "subprocess_run i w =
     (fst (child w i (fs w)), w\<lparr>fs := snd (child w i (fs w)), spawned := spawned w @ [i]\<rparr>)"

section \<open>Listing: \<open>get_all_repos\<close>\<close>

definition per_page_const :: nat where
  "per_page_const = 100"

definition list_request :: "string \<Rightarrow> nat \<Rightarrow> request" where
  "list_request org_name p =
     \<lparr>url = ''https://api.github.com/orgs/'' @ org_name @ ''/repos'',
      params = \<lparr>page = p, per_page = per_page_const, type = ''all'', sort = ''updated'',
                direction = ''desc''\<rparr>\<rparr>"

definition not_found_msg :: "string \<Rightarrow> string" where
  "not_found_msg org_name =
     ''Organization '' @ [CHR 0x27] @ org_name @ [CHR 0x27] @ '' not found or not accessible''"

definition rate_limit_msg :: string where
  "rate_limit_msg = ''API rate limit exceeded or insufficient permissions''"

definition api_error_msg :: "response \<Rightarrow> string" where
  "api_error_msg r = ''GitHub API error: '' @ str_int (status_code r) @ '' - '' @ text r"

text \<open>
  The \<open>while True\<close> loop of \<open>get_all_repos\<close>, from the state \<open>(page, repos)\<close>. It has no
  bound of its own: \<open>None\<close> is the loop that never ends. \<open>time.sleep(0.1)\<close> between two
  pages changes nothing that is modelled.
\<close>

partial_function (option) get_all_repos_loop ::
  "string \<Rightarrow> nat \<Rightarrow> repo list \<Rightarrow> world \<Rightarrow> ((exn + repo list) \<times> world) option" where
  "get_all_repos_loop org_name p repos w =
     (let w1 = print (''Fetching page '' @ str_nat p @ ''...'') w;
          response = fst (session_get (list_request org_name p) w1);
          w2 = snd (session_get (list_request org_name p) w1)
      in if status_code response = 404 then Some (Inl (ValueError (not_found_msg org_name)), w2)
         else if status_code response = 403 then Some (Inl (ValueError rate_limit_msg), w2)
         else if status_code response \<noteq> 200 then
           Some (Inl (ValueError (api_error_msg response)), w2)
         else
           case json response of
             Inl m \<Rightarrow> Some (Inl (JSONDecodeError m), w2)
           | Inr page_repos \<Rightarrow>
               if page_repos = [] then Some (Inr repos, w2)
               else
                 let repos' = repos @ page_repos;
                     w3 = print (''Found '' @ str_nat (length page_repos) @
                            '' repositories on page '' @ str_nat p) w2
                 in if length page_repos < per_page_const then Some (Inr repos', w3)
                    else get_all_repos_loop org_name (p + 1) repos' w3)"

definition get_all_repos :: "string \<Rightarrow> world \<Rightarrow> ((exn + repo list) \<times> world) option" where
  "get_all_repos org_name w =
     (case get_all_repos_loop org_name 1 []
             (print (''Fetching repositories for organization: '' @ org_name) w) of
        None \<Rightarrow> None
      | Some (Inl e, w') \<Rightarrow> Some (Inl e, w')
      | Some (Inr repos, w') \<Rightarrow>
          Some (Inr repos, print (''Total repositories found: '' @ str_nat (length repos)) w'))"

section \<open>Cloning: \<open>clone_repo\<close>\<close>

definition git_ssh_command :: string where
  "git_ssh_command = ''ssh -o StrictHostKeyChecking=no -o BatchMode=yes''"

text \<open>
  \<open>os.path.exists\<close> is membership in \<open>fs\<close>. The \<open>try\<close> block has one call that can raise,
  \<open>subprocess.run\<close>; its four \<open>except\<close> clauses are the cases of the completion.
\<close>

definition clone_repo :: "repo \<Rightarrow> string \<Rightarrow> bool \<Rightarrow> world \<Rightarrow> bool \<times> world" where
  "clone_repo repo target_dir use_ssh w =
     (let repo_name = name repo;
          clone_url = (if use_ssh then ssh_url repo else clone_url repo);
          repo_path = path_join target_dir repo_name
      in if repo_path \<in> fs w then
           (True, print (warning_sign @ ''  '' @ repo_name @ '' already exists, skipping...'') w)
         else
           let w1 = print (package_sign @ '' Cloning '' @ repo_name @ ''...'') w;
               env0 = environ w1;
               env1 = (if use_ssh then env0(''GIT_SSH_COMMAND'' \<mapsto> git_ssh_command) else env0);
               call = \<lparr>argv = [''git'', ''clone'', clone_url, repo_path], capture_output = True,
                       text_mode = True, timeout = Some 300, env = Some env1\<rparr>;
               result = fst (subprocess_run call w1);
               w2 = snd (subprocess_run call w1)
           in case result of
                Completed returncode out err \<Rightarrow>
                  if returncode = 0 then
                    (True, print (check_mark @ '' Successfully cloned '' @ repo_name) w2)
                  else
                    let error_msg = strip err
                    in if sublist ''Permission denied'' error_msg \<and> use_ssh then
                         (False,
                          print ''   Try: ssh-add ~/.ssh/id_ed25519''
                            (print (cross_mark @ '' SSH authentication failed for '' @ repo_name @
                               ''. Make sure ssh-agent is running and key is added.'') w2))
                       else
                         (False,
                          print (cross_mark @ '' Failed to clone '' @ repo_name @ '': '' @
                            error_msg) w2)
              | TimeoutExpired \<Rightarrow>
                  (False, print (cross_mark @ '' Timeout while cloning '' @ repo_name) w2)
              | FileNotFoundError \<Rightarrow>
                  (False, print (cross_mark @ '' Git is not installed or not in PATH'') w2)
              | OtherException e \<Rightarrow>
                  (False, print (cross_mark @ '' Error cloning '' @ repo_name @ '': '' @ e) w2))"

text \<open>
  The call of \<open>subprocess.run\<close> that \<open>clone_repo\<close> makes in the world \<open>w\<close>, and the line it
  prints before the call.
\<close>

definition git_clone_call :: "repo \<Rightarrow> string \<Rightarrow> bool \<Rightarrow> world \<Rightarrow> invocation" where
  "git_clone_call repo target_dir use_ssh w =
     \<lparr>argv = [''git'', ''clone'', if use_ssh then ssh_url repo else clone_url repo,
              path_join target_dir (name repo)],
      capture_output = True, text_mode = True, timeout = Some 300,
      env = Some (if use_ssh then (environ w)(''GIT_SSH_COMMAND'' \<mapsto> git_ssh_command)
                  else environ w)\<rparr>"

definition cloning_line :: "repo \<Rightarrow> string" where
  "cloning_line repo = package_sign @ '' Cloning '' @ name repo @ ''...'' @ [CHR 0x0A]"

section \<open>The run: \<open>pull_all_repos\<close> and \<open>main\<close>\<close>

definition check_ssh_agent :: "world \<Rightarrow> bool \<times> world" where
  "check_ssh_agent w =
     (let call = \<lparr>argv = [''ssh-add'', ''-l''], capture_output = True, text_mode = True,
                  timeout = None, env = None\<rparr>;
          result = fst (subprocess_run call w);
          w1 = snd (subprocess_run call w)
      in case result of
           Completed returncode out err \<Rightarrow>
             if returncode = 0 then
               (True, print (check_mark @ '' SSH agent is running with loaded keys'') w1)
             else
               (False,
                print ''   Run: ssh-add ~/.ssh/id_ed25519''
                  (print (warning_sign @ ''  SSH agent is running but no keys are loaded'') w1))
         | FileNotFoundError \<Rightarrow> (False, print (warning_sign @ ''  SSH agent not found'') w1)
         | TimeoutExpired \<Rightarrow>
             (False, print (warning_sign @ ''  Could not check SSH agent status'') w1)
         | OtherException e \<Rightarrow>
             (False, print (warning_sign @ ''  Could not check SSH agent status'') w1))"

text \<open>The call of \<open>subprocess.run\<close> that \<open>check_ssh_agent\<close> makes.\<close>

definition ssh_add_call :: invocation where
  "ssh_add_call = \<lparr>argv = [''ssh-add'', ''-l''], capture_output = True, text_mode = True,
                    timeout = None, env = None\<rparr>"

text \<open>\<open>input(prompt)\<close>: the prompt is written, a line is read; no line left is \<open>EOFError\<close>.\<close>

definition input :: "string \<Rightarrow> world \<Rightarrow> (exn + string) \<times> world" where
  "input prompt w =
     (let w1 = print_end prompt w
      in case stdin w1 of
           [] \<Rightarrow> (Inl EOFError, w1)
         | l # ls \<Rightarrow> (Inr l, w1\<lparr>stdin := ls\<rparr>))"

text \<open>\<open>os.makedirs(d, exist_ok=True)\<close>: \<open>Some e\<close> is the exception it raises.\<close>

definition makedirs :: "string \<Rightarrow> world \<Rightarrow> exn option \<times> world" where
  "makedirs d w =
     (case mkdir w d (fs w) of
        Inl m \<Rightarrow> (Some (OSError m), w)
      | Inr f \<Rightarrow> (None, w\<lparr>fs := f\<rparr>))"

text \<open>
  How \<open>pull_all_repos\<close> ends: it returns, it leaves through \<open>sys.exit\<close>, or an exception
  leaves it uncaught.
\<close>

datatype outcome = Returned | SystemExit nat | Uncaught exn

text \<open>
  The SSH check of \<open>pull_all_repos\<close>. \<open>Some out\<close> is a run that ends there: the user
  declined (\<open>return\<close>), or \<open>input\<close> raised outside the \<open>try\<close>.
\<close>

definition ssh_check :: "bool \<Rightarrow> world \<Rightarrow> outcome option \<times> world" where
  "ssh_check use_ssh w =
     (if use_ssh then
        let w1 = print (CHR 0x0A # ''Checking SSH configuration...'') w;
            ok = fst (check_ssh_agent w1);
            w2 = snd (check_ssh_agent w1)
        in if \<not> ok then
             let w3 = print (''Warning: SSH issues detected. '' @
                        ''Consider using HTTPS instead or fix SSH setup.'') w2;
                 answer = fst (input ''Continue anyway? (y/n): '' w3);
                 w4 = snd (input ''Continue anyway? (y/n): '' w3)
             in case answer of
                  Inl e \<Rightarrow> (Some (Uncaught e), w4)
                | Inr line \<Rightarrow>
                    if lower (strip line) \<noteq> ''y'' then (Some Returned, w4) else (None, w4)
           else (None, w2)
      else (None, w))"

text \<open>The filter loop: the repositories kept, in order, and a line for each one skipped.\<close>

fun filter_repos :: "bool \<Rightarrow> bool \<Rightarrow> repo list \<Rightarrow> repo list \<Rightarrow> world \<Rightarrow> repo list \<times> world" where
  "filter_repos include_forks include_archived [] filtered_repos w = (filtered_repos, w)"
| "filter_repos include_forks include_archived (repo # rest) filtered_repos w =
     (if \<not> include_forks \<and> fork repo then
        filter_repos include_forks include_archived rest filtered_repos
          (print (''Skipping fork: '' @ name repo) w)
      else if \<not> include_archived \<and> archived repo then
        filter_repos include_forks include_archived rest filtered_repos
          (print (''Skipping archived repo: '' @ name repo) w)
      else filter_repos include_forks include_archived rest (filtered_repos @ [repo]) w)"

text \<open>
  The clone loop, \<open>for i, repo in enumerate(filtered_repos, 1)\<close>, from the state
  \<open>(i, successful, failed)\<close>; \<open>len\<close> is \<open>len(filtered_repos)\<close>.
\<close>

fun clone_loop ::
  "string \<Rightarrow> bool \<Rightarrow> nat \<Rightarrow> nat \<Rightarrow> repo list \<Rightarrow> nat \<Rightarrow> nat \<Rightarrow> world \<Rightarrow> (nat \<times> nat) \<times> world" where
  "clone_loop target_dir use_ssh len i [] successful failed w = ((successful, failed), w)"
| "clone_loop target_dir use_ssh len i (repo # rest) successful failed w =
     (let w1 = print_end (CHR 0x0A # ''['' @ str_nat i @ ''/'' @ str_nat len @ ''] '') w;
          ok = fst (clone_repo repo target_dir use_ssh w1);
          w2 = snd (clone_repo repo target_dir use_ssh w1)
      in if ok then clone_loop target_dir use_ssh len (i + 1) rest (successful + 1) failed w2
         else clone_loop target_dir use_ssh len (i + 1) rest successful (failed + 1) w2)"

text \<open>
  The values that \<open>clone_repo\<close> returns in the clone loop, one for each repository, in
  order.
\<close>

fun clone_results :: "string \<Rightarrow> bool \<Rightarrow> nat \<Rightarrow> nat \<Rightarrow> repo list \<Rightarrow> world \<Rightarrow> bool list" where
  "clone_results target_dir use_ssh len i [] w = []"
| "clone_results target_dir use_ssh len i (repo # rest) w =
     (let w1 = print_end (CHR 0x0A # ''['' @ str_nat i @ ''/'' @ str_nat len @ ''] '') w;
          ok = fst (clone_repo repo target_dir use_ssh w1);
          w2 = snd (clone_repo repo target_dir use_ssh w1)
      in ok # clone_results target_dir use_ssh len (i + 1) rest w2)"

definition print_summary :: "nat \<Rightarrow> nat \<Rightarrow> nat \<Rightarrow> world \<Rightarrow> world" where
  "print_summary len successful failed w =
     (let w1 = print (CHR 0x0A # replicate 50 CHR ''='') w;
          w2 = print ''SUMMARY'' w1;
          w3 = print (replicate 50 CHR ''='') w2;
          w4 = print (''Total repositories: '' @ str_nat len) w3;
          w5 = print (''Successfully cloned: '' @ str_nat successful) w4;
          w6 = print (''Failed: '' @ str_nat failed) w5
      in if failed > 0 then
           print (CHR 0x0A # warning_sign @ ''  '' @ str_nat failed @
             '' repositories failed to clone. Check the output above for details.'') w6
         else print (CHR 0x0A # party_popper @ '' All repositories cloned successfully!'') w6)"

text \<open>\<open>str(e)\<close> of an exception.\<close>

fun str_exn :: "exn \<Rightarrow> string" where
  "str_exn (ValueError m) = m"
| "str_exn (JSONDecodeError m) = m"
| "str_exn (OSError m) = m"
| "str_exn EOFError = []"

text \<open>
  The \<open>try\<close> block of \<open>pull_all_repos\<close> with its handler: an exception of the listing is
  printed and the run leaves through \<open>sys.exit(1)\<close>. \<open>None\<close> is a listing that never ends.
\<close>

definition pull_try ::
  "string \<Rightarrow> string \<Rightarrow> bool \<Rightarrow> bool \<Rightarrow> bool \<Rightarrow> world \<Rightarrow> (outcome \<times> world) option" where
  "pull_try org_name target_dir use_ssh include_forks include_archived w =
     (case get_all_repos org_name w of
        None \<Rightarrow> None
      | Some (Inl e, w1) \<Rightarrow>
          Some (SystemExit 1, print (cross_mark @ '' Error: '' @ str_exn e) w1)
      | Some (Inr repos, w1) \<Rightarrow>
          let filtered_repos = fst (filter_repos include_forks include_archived repos [] w1);
              w2 = snd (filter_repos include_forks include_archived repos [] w1);
              w3 = print (CHR 0x0A # ''Will clone '' @ str_nat (length filtered_repos) @
                     '' repositories'') w2;
              counts = fst (clone_loop target_dir use_ssh (length filtered_repos) 1
                         filtered_repos 0 0 w3);
              w4 = snd (clone_loop target_dir use_ssh (length filtered_repos) 1
                     filtered_repos 0 0 w3)
          in Some (Returned,
                   print_summary (length filtered_repos) (fst counts) (snd counts) w4))"

text \<open>
  The statements of \<open>pull_all_repos\<close> before the \<open>try\<close> block, for the target directory
  \<open>target_dir\<close> already resolved: the directory is created, its absolute path printed and the
  SSH agent checked. \<open>Some out\<close> is a run that ends there; an exception raised there leaves
  \<open>pull_all_repos\<close> uncaught.
\<close>

definition pull_head :: "string \<Rightarrow> bool \<Rightarrow> world \<Rightarrow> outcome option \<times> world" where
  "pull_head target_dir use_ssh w =
     (case makedirs target_dir w of
        (Some e, w1) \<Rightarrow> (Some (Uncaught e), w1)
      | (None, w1) \<Rightarrow>
          ssh_check use_ssh (print (''Cloning repositories to: '' @ abspath w1 target_dir) w1))"

definition pull_all_repos ::
  "string \<Rightarrow> string option \<Rightarrow> bool \<Rightarrow> bool \<Rightarrow> bool \<Rightarrow> world \<Rightarrow> (outcome \<times> world) option" where
  "pull_all_repos org_name target_dir use_ssh include_forks include_archived w =
     (let target_dir' = (case target_dir of None \<Rightarrow> org_name | Some d \<Rightarrow> d)
      in case pull_head target_dir' use_ssh w of
           (Some out, w3) \<Rightarrow> Some (out, w3)
         | (None, w3) \<Rightarrow>
             pull_try org_name target_dir' use_ssh include_forks include_archived w3)"

text \<open>
  The command line after parsing, and \<open>main\<close>. The token only sets request headers, which
  are not modelled; without one the constructor prints a warning. The value of \<open>main\<close> is
  the exit status of the process: 0 when \<open>pull_all_repos\<close> returns, the argument of
  \<open>sys.exit\<close>, and 1 for an uncaught exception.
\<close>

record args =
  organization :: string
  token :: "string option"
  target_dir :: "string option"
  ssh :: bool
  no_forks :: bool
  no_archived :: bool





section \<open>Example worlds\<close>

text \<open>A repository, a page of \<open>n\<close> of it, and a quiet world; the worlds below vary it.\<close>

definition repo0 :: repo where
  "repo0 = \<lparr>name = ''repo1'', clone_url = ''https://github.com/org/repo1.git'',
            ssh_url = ''git@github.com:org/repo1.git'', fork = False, archived = False\<rparr>"

definition ok_page :: "nat \<Rightarrow> response" where
  "ok_page n = \<lparr>status_code = 200, text = [], json = Inr (replicate n repo0)\<rparr>"

definition world0 :: world where
  "world0 = \<lparr>fs = {}, environ = Map.empty, stdin = [], stdout = [],
             server = (\<lambda>i. ok_page 0), requests = [],
             child = (\<lambda>i f. (Completed 0 [] [], f)), spawned = [],
             mkdir = (\<lambda>d f. Inr (insert d f)), abspath = (\<lambda>p. ''/home/'' @ p)\<rparr>"

text \<open>Pages of 100, 100 and 37 repositories; pages of 100, 100, 100 and none.\<close>

definition world_237 :: world where
  "world_237 = world0\<lparr>server := (\<lambda>i. if i < 2 then ok_page 100 else ok_page 37)\<rparr>"

definition world_300 :: world where
  "world_300 = world0\<lparr>server := (\<lambda>i. if i < 3 then ok_page 100 else ok_page 0)\<rparr>"

text \<open>A response with status \<open>c\<close> whose body \<open>body\<close> is not JSON.\<close>

definition error_page :: "int \<Rightarrow> string \<Rightarrow> response" where
  "error_page c body =
     \<lparr>status_code = c, text = body, json = Inl ''Expecting value: line 1 column 1 (char 0)''\<rparr>"

text \<open>A server that answers every request with \<open>error_page c body\<close>.\<close>

definition world_status :: "int \<Rightarrow> string \<Rightarrow> world" where
  "world_status c body = world0\<lparr>server := (\<lambda>i. error_page c body)\<rparr>"


text \<open>A world in which every child process ends as \<open>c\<close> and leaves the disk as it is.\<close>

definition world_child :: "completion \<Rightarrow> world" where
  "world_child c = world0\<lparr>child := (\<lambda>i f. (c, f))\<rparr>"

text \<open>Two error outputs of \<open>git clone\<close>, each a line.\<close>

definition err_not_found :: string where
  "err_not_found = ''fatal: repository not found'' @ [CHR 0x0A]"

definition err_denied :: string where
  "err_denied = ''git@github.com: Permission denied (publickey).'' @ [CHR 0x0A]"

text \<open>A world in which the destination of \<open>repo0\<close> under \<open>out\<close> exists already.\<close>

definition world_exists :: world where
  "world_exists = world0\<lparr>fs := {''out/repo1''}\<rparr>"

text \<open>A world with two environment variables, one of them \<open>GIT_SSH_COMMAND\<close>.\<close>

definition world_env :: world where
  "world_env = world0\<lparr>environ := [''PATH'' \<mapsto> ''/usr/bin'', ''GIT_SSH_COMMAND'' \<mapsto> ''ssh -v'']\<rparr>"

text \<open>
  The three repositories of the end-to-end example: \<open>repo1\<close> is \<open>repo0\<close>, \<open>repo2\<close> is a fork
  and \<open>repo3\<close> is archived. The server of \<open>world_three\<close> lists them on one page.
\<close>

definition repo2 :: repo where
  "repo2 = \<lparr>name = ''repo2'', clone_url = ''https://github.com/org/repo2.git'',
            ssh_url = ''git@github.com:org/repo2.git'', fork = True, archived = False\<rparr>"

definition repo3 :: repo where
  "repo3 = \<lparr>name = ''repo3'', clone_url = ''https://github.com/org/repo3.git'',
            ssh_url = ''git@github.com:org/repo3.git'', fork = False, archived = True\<rparr>"

definition world_three :: world where
  "world_three =
     world0\<lparr>server := (\<lambda>i. \<lparr>status_code = 200, text = [], json = Inr [repo0, repo2, repo3]\<rparr>)\<rparr>"




definition args_strict :: args where
  "args_strict = \<lparr>organization = ''org'', token = None, target_dir = None, ssh = False,
                  no_forks = True, no_archived = True\<rparr>"

section \<open>Effects of the primitive operations\<close>

lemma print_fields [simp]:
  "fs (print s w) = fs w" "environ (print s w) = environ w" "stdin (print s w) = stdin w"
  "server (print s w) = server w" "requests (print s w) = requests w"
  "child (print s w) = child w" "spawned (print s w) = spawned w" "mkdir (print s w) = mkdir w"
  "abspath (print s w) = abspath w" "stdout (print s w) = stdout w @ s @ [CHR 0x0A]"
  by (simp_all add: print_def)

lemma session_get_fields [simp]:
  "fst (session_get r w) = server w 0"
  "server (snd (session_get r w)) = (\<lambda>i. server w (Suc i))"
  "requests (snd (session_get r w)) = requests w @ [r]"
  "fs (snd (session_get r w)) = fs w" "environ (snd (session_get r w)) = environ w"
  "stdin (snd (session_get r w)) = stdin w" "stdout (snd (session_get r w)) = stdout w"
  "child (snd (session_get r w)) = child w" "spawned (snd (session_get r w)) = spawned w"
  "mkdir (snd (session_get r w)) = mkdir w" "abspath (snd (session_get r w)) = abspath w"
  by (simp_all add: session_get_def)

section \<open>Filtering\<close>

lemma filter_repos_acc:
  "fst (filter_repos f a rs acc w) =
     acc @ filter (\<lambda>r. \<not> (\<not> f \<and> fork r) \<and> \<not> (\<not> a \<and> archived r)) rs"
  by (induction rs arbitrary: acc w) auto

lemma filter_repos_stdout_only:
  "(snd (filter_repos f a rs acc w))\<lparr>stdout := s\<rparr> = w\<lparr>stdout := s\<rparr>"
  by (induction rs arbitrary: acc w) (auto simp: print_def)

lemma filter_repos_frame:
  "(snd (filter_repos f a rs acc w))\<lparr>stdout := stdout w\<rparr> = w"
  by (simp add: filter_repos_stdout_only)

text \<open>
  C2. The filter loop of \<open>pull_all_repos\<close> keeps a repository exactly when it is not a
  fork excluded by \<open>include_forks = False\<close> and not an archived repository excluded by
  \<open>include_archived = False\<close>. The result is the input filtered by that test, in the
  input's order, whatever the flags and the world are; the loop is total, and of the world it
  changes nothing but the lines printed for the repositories it skips.
\<close>

theorem filter_repos_spec:
  "fst (filter_repos include_forks include_archived repos [] w) =
     filter (\<lambda>r. \<not> (\<not> include_forks \<and> fork r) \<and> \<not> (\<not> include_archived \<and> archived r)) repos
   \<and> subseq (fst (filter_repos include_forks include_archived repos [] w)) repos
   \<and> (snd (filter_repos include_forks include_archived repos [] w))\<lparr>stdout := stdout w\<rparr> = w"
  by (simp add: filter_repos_acc filter_repos_frame)

section \<open>Pagination\<close>

lemma loop_full:
  assumes "status_code (server w 0) = 200" "json (server w 0) = Inr l" "per_page_const \<le> length l"
  shows "get_all_repos_loop org p repos w =
           get_all_repos_loop org (Suc p) (repos @ l)
             (print (''Found '' @ str_nat (length l) @ '' repositories on page '' @ str_nat p)
                (snd (session_get (list_request org p)
                   (print (''Fetching page '' @ str_nat p @ ''...'') w))))"
proof -
  from assms(3) have "l \<noteq> []" "\<not> length l < per_page_const"
    by (auto simp: per_page_const_def)
  with assms(1,2) show ?thesis
    by (subst get_all_repos_loop.simps) (simp add: Let_def)
qed

lemma loop_short:
  assumes "status_code (server w 0) = 200" "json (server w 0) = Inr l" "length l < per_page_const"
  shows "get_all_repos_loop org p repos w =
           Some (Inr (repos @ l),
             if l = [] then
               snd (session_get (list_request org p)
                 (print (''Fetching page '' @ str_nat p @ ''...'') w))
             else
               print (''Found '' @ str_nat (length l) @ '' repositories on page '' @ str_nat p)
                 (snd (session_get (list_request org p)
                    (print (''Fetching page '' @ str_nat p @ ''...'') w))))"
  using assms by (subst get_all_repos_loop.simps) (simp add: Let_def)

lemma loop_raise:
  assumes "status_code (server w 0) \<noteq> 200 \<or> (\<exists>m. json (server w 0) = Inl m)"
  shows "get_all_repos_loop org p repos w =
           Some (Inl (if status_code (server w 0) = 404 then ValueError (not_found_msg org)
                      else if status_code (server w 0) = 403 then ValueError rate_limit_msg
                      else if status_code (server w 0) \<noteq> 200
                        then ValueError (api_error_msg (server w 0))
                      else JSONDecodeError (projl (json (server w 0)))),
             snd (session_get (list_request org p)
               (print (''Fetching page '' @ str_nat p @ ''...'') w)))"
  using assms by (subst get_all_repos_loop.simps) (auto simp: Let_def)

lemma upt_shift: "map f [0..<Suc (Suc k)] = f 0 # map (\<lambda>i. f (Suc i)) [0..<Suc k]"
  by (simp only: map_upt_Suc [of _ "Suc k"])

lemma loop_stops:
  assumes "get_all_repos_loop org p repos w = Some r"
  shows "\<exists>k. (\<forall>i<k. status_code (server w i) = 200 \<and>
                  (\<exists>l. json (server w i) = Inr l \<and> per_page_const \<le> length l))
          \<and> requests (snd r) = requests w @ map (\<lambda>i. list_request org (p + i)) [0..<Suc k]
          \<and> server (snd r) = (\<lambda>i. server w (Suc k + i))
          \<and> (snd r)\<lparr>stdout := stdout w, requests := requests w, server := server w\<rparr> = w
          \<and> (case fst r of
                Inl e \<Rightarrow> status_code (server w k) \<noteq> 200 \<or> (\<exists>m. json (server w k) = Inl m)
              | Inr rs \<Rightarrow> status_code (server w k) = 200 \<and>
                  (\<exists>l. json (server w k) = Inr l \<and> length l < per_page_const))"
  using assms
proof (induction org p repos w r rule: get_all_repos_loop.raw_induct [rotated 1, consumes 1])
  case (1 loop org p repos w r)
  let ?w1 = "print (''Fetching page '' @ str_nat p @ ''...'') w"
  let ?w2 = "snd (session_get (list_request org p) ?w1)"
  have fr: "?w2\<lparr>stdout := stdout w, requests := requests w, server := server w\<rparr> = w"
    by (simp add: print_def session_get_def)
  show ?case
  proof (cases "status_code (server w 0) = 200 \<and>
      (\<exists>l. json (server w 0) = Inr l \<and> per_page_const \<le> length l)")
    case False
    obtain y w' where r: "r = (y, w')"
      by (cases r)
    from False 1(2) have "(w' = ?w2 \<or> w' = print (''Found '' @ str_nat (length (projr (json (server w 0)))) @
                      '' repositories on page '' @ str_nat p) ?w2)
        \<and> (case y of
                Inl e \<Rightarrow> status_code (server w 0) \<noteq> 200 \<or> (\<exists>m. json (server w 0) = Inl m)
              | Inr rs \<Rightarrow> status_code (server w 0) = 200 \<and>
                  (\<exists>l. json (server w 0) = Inr l \<and> length l < per_page_const))"
      unfolding r by (auto simp: Let_def per_page_const_def split: if_splits sum.splits)
    then have "requests w' = requests w @ [list_request org p]"
      "server w' = (\<lambda>i. server w (Suc i))"
      "w'\<lparr>stdout := stdout w, requests := requests w, server := server w\<rparr> = w"
      "(case y of
                Inl e \<Rightarrow> status_code (server w 0) \<noteq> 200 \<or> (\<exists>m. json (server w 0) = Inl m)
              | Inr rs \<Rightarrow> status_code (server w 0) = 200 \<and>
                  (\<exists>l. json (server w 0) = Inr l \<and> length l < per_page_const))"
      by (auto simp: print_def session_get_def)
    then show ?thesis
      unfolding r by (intro exI [of _ 0]) simp
  next
    case True
    then obtain l where l: "status_code (server w 0) = 200" "json (server w 0) = Inr l"
        "per_page_const \<le> length l"
      by blast
    define w3 where
      "w3 = print (''Found '' @ str_nat (length l) @ '' repositories on page '' @ str_nat p) ?w2"
    have w3: "server w3 = (\<lambda>i. server w (Suc i))"
      "requests w3 = requests w @ [list_request org p]"
      "w3\<lparr>stdout := stdout w, requests := requests w, server := server w\<rparr> = w"
      by (simp_all add: w3_def print_def session_get_def)
    from l(3) have l': "l \<noteq> []" "\<not> length l < per_page_const"
      by (auto simp: per_page_const_def)
    from 1(2) l(1,2) l' have step: "loop org (p + 1) (repos @ l) w3 = Some r"
      by (simp add: Let_def w3_def)
    note ih = 1(1) [OF step]
    from ih obtain k where
      k: "\<forall>i<k. status_code (server w3 i) = 200 \<and>
                  (\<exists>l. json (server w3 i) = Inr l \<and> per_page_const \<le> length l)"
         "requests (snd r) = requests w3 @ map (\<lambda>i. list_request org (p + 1 + i)) [0..<Suc k]"
         "server (snd r) = (\<lambda>i. server w3 (Suc k + i))"
         "(snd r)\<lparr>stdout := stdout w3, requests := requests w3, server := server w3\<rparr> = w3"
         "(case fst r of
                Inl e \<Rightarrow> status_code (server w3 k) \<noteq> 200 \<or> (\<exists>m. json (server w3 k) = Inl m)
              | Inr rs \<Rightarrow> status_code (server w3 k) = 200 \<and>
                  (\<exists>l. json (server w3 k) = Inr l \<and> length l < per_page_const))"
      by (elim exE conjE) (rule that)
    have a: "\<forall>i<Suc k. status_code (server w i) = 200 \<and>
                  (\<exists>l. json (server w i) = Inr l \<and> per_page_const \<le> length l)"
    proof (intro allI impI)
      fix i assume "i < Suc k"
      then show "status_code (server w i) = 200 \<and>
                  (\<exists>l. json (server w i) = Inr l \<and> per_page_const \<le> length l)"
        using k(1) l by (cases i) (auto simp: w3(1))
    qed
    have b: "requests (snd r) =
        requests w @ map (\<lambda>i. list_request org (p + i)) [0..<Suc (Suc k)]"
      using k(2) by (simp only: upt_shift [of "\<lambda>i. list_request org (p + i)"] w3(2)) simp
    have c: "server (snd r) = (\<lambda>i. server w (Suc (Suc k) + i))"
      using k(3) by (simp add: w3(1))
    have d: "(snd r)\<lparr>stdout := stdout w, requests := requests w, server := server w\<rparr> = w"
    proof -
      have "(snd r)\<lparr>stdout := stdout w, requests := requests w, server := server w\<rparr> =
        ((snd r)\<lparr>stdout := stdout w3, requests := requests w3, server := server w3\<rparr>)
          \<lparr>stdout := stdout w, requests := requests w, server := server w\<rparr>"
        by simp
      also have "\<dots> = w3\<lparr>stdout := stdout w, requests := requests w, server := server w\<rparr>"
        by (simp only: k(4))
      also have "\<dots> = w"
        by (rule w3(3))
      finally show ?thesis .
    qed
    have e: "(case fst r of
                Inl e \<Rightarrow> status_code (server w (Suc k)) \<noteq> 200 \<or>
                  (\<exists>m. json (server w (Suc k)) = Inl m)
              | Inr rs \<Rightarrow> status_code (server w (Suc k)) = 200 \<and>
                  (\<exists>l. json (server w (Suc k)) = Inr l \<and> length l < per_page_const))"
      using k(5) by (cases "fst r") (simp_all add: w3(1))
    show ?thesis
      using a b c d e by blast
  qed
qed

lemma loop_pages:
  assumes "\<forall>i<k. status_code (server w i) = 200 \<and> json (server w i) = Inr (pages i) \<and>
             per_page_const \<le> length (pages i)"
  shows "\<exists>wk. get_all_repos_loop org p repos w =
              get_all_repos_loop org (p + k) (repos @ concat (map pages [0..<k])) wk
           \<and> requests wk = requests w @ map (\<lambda>i. list_request org (p + i)) [0..<k]
           \<and> server wk = (\<lambda>i. server w (k + i))
           \<and> wk\<lparr>stdout := stdout w, requests := requests w, server := server w\<rparr> = w"
  using assms
proof (induction k)
  case 0
  show ?case
    by (rule exI [of _ w]) simp
next
  case (Suc k)
  from Suc obtain wk where
    wk: "get_all_repos_loop org p repos w =
           get_all_repos_loop org (p + k) (repos @ concat (map pages [0..<k])) wk"
      "requests wk = requests w @ map (\<lambda>i. list_request org (p + i)) [0..<k]"
      "server wk = (\<lambda>i. server w (k + i))"
      "wk\<lparr>stdout := stdout w, requests := requests w, server := server w\<rparr> = w"
    by auto
  from Suc.prems wk(3) have page: "status_code (server wk 0) = 200"
      "json (server wk 0) = Inr (pages k)" "per_page_const \<le> length (pages k)"
    by simp_all
  define wk' where
    "wk' = print (''Found '' @ str_nat (length (pages k)) @ '' repositories on page '' @
              str_nat (p + k))
             (snd (session_get (list_request org (p + k))
                (print (''Fetching page '' @ str_nat (p + k) @ ''...'') wk)))"
  have a: "get_all_repos_loop org p repos w =
      get_all_repos_loop org (p + Suc k) (repos @ concat (map pages [0..<Suc k])) wk'"
    using loop_full [OF page, of org "p + k" "repos @ concat (map pages [0..<k])"]
    by (simp add: wk(1) wk'_def)
  have b: "requests wk' = requests w @ map (\<lambda>i. list_request org (p + i)) [0..<Suc k]"
    by (simp add: wk'_def wk(2))
  have c: "server wk' = (\<lambda>i. server w (Suc k + i))"
    by (simp add: wk'_def wk(3))
  have "wk'\<lparr>stdout := stdout w, requests := requests w, server := server w\<rparr> =
      wk\<lparr>stdout := stdout w, requests := requests w, server := server w\<rparr>"
    by (simp add: wk'_def print_def session_get_def)
  then have d: "wk'\<lparr>stdout := stdout w, requests := requests w, server := server w\<rparr> = w"
    by (simp only: wk(4))
  from a b c d show ?case
    by blast
qed

lemma loop_pages_short:
  assumes "\<forall>i<k. status_code (server w i) = 200 \<and> json (server w i) = Inr (pages i) \<and>
             per_page_const \<le> length (pages i)"
    and "status_code (server w k) = 200" "json (server w k) = Inr l" "length l < per_page_const"
  shows "\<exists>w'. get_all_repos_loop org p repos w =
              Some (Inr (repos @ concat (map pages [0..<k]) @ l), w')
           \<and> requests w' = requests w @ map (\<lambda>i. list_request org (p + i)) [0..<Suc k]
           \<and> server w' = (\<lambda>i. server w (Suc k + i))
           \<and> w'\<lparr>stdout := stdout w, requests := requests w, server := server w\<rparr> = w"
proof -
  from loop_pages [OF assms(1), of org p repos] obtain wk where
    wk: "get_all_repos_loop org p repos w =
           get_all_repos_loop org (p + k) (repos @ concat (map pages [0..<k])) wk"
      "requests wk = requests w @ map (\<lambda>i. list_request org (p + i)) [0..<k]"
      "server wk = (\<lambda>i. server w (k + i))"
      "wk\<lparr>stdout := stdout w, requests := requests w, server := server w\<rparr> = w"
    by auto
  from assms(2-4) wk(3) have page: "status_code (server wk 0) = 200"
      "json (server wk 0) = Inr l" "length l < per_page_const"
    by simp_all
  define w' where
    "w' = (if l = [] then
             snd (session_get (list_request org (p + k))
               (print (''Fetching page '' @ str_nat (p + k) @ ''...'') wk))
           else
             print (''Found '' @ str_nat (length l) @ '' repositories on page '' @
                 str_nat (p + k))
               (snd (session_get (list_request org (p + k))
                  (print (''Fetching page '' @ str_nat (p + k) @ ''...'') wk))))"
  have a: "get_all_repos_loop org p repos w =
      Some (Inr (repos @ concat (map pages [0..<k]) @ l), w')"
    using loop_short [OF page, of org "p + k" "repos @ concat (map pages [0..<k])"]
    by (simp add: wk(1) w'_def)
  have b: "requests w' = requests w @ map (\<lambda>i. list_request org (p + i)) [0..<Suc k]"
    by (simp add: w'_def wk(2))
  have c: "server w' = (\<lambda>i. server w (Suc k + i))"
    by (simp add: w'_def wk(3))
  have "w'\<lparr>stdout := stdout w, requests := requests w, server := server w\<rparr> =
      wk\<lparr>stdout := stdout w, requests := requests w, server := server w\<rparr>"
    by (simp add: w'_def print_def session_get_def)
  then have d: "w'\<lparr>stdout := stdout w, requests := requests w, server := server w\<rparr> = w"
    by (simp only: wk(4))
  from a b c d show ?thesis
    by blast
qed


lemma print_frame:
  "w'\<lparr>stdout := stdout (print s w), requests := requests (print s w),
       server := server (print s w)\<rparr> = print s w \<Longrightarrow>
   w'\<lparr>stdout := stdout w, requests := requests w, server := server w\<rparr> = w"
proof -
  assume a: "w'\<lparr>stdout := stdout (print s w), requests := requests (print s w),
       server := server (print s w)\<rparr> = print s w"
  have "w'\<lparr>stdout := stdout w, requests := requests w, server := server w\<rparr> =
    (w'\<lparr>stdout := stdout (print s w), requests := requests (print s w),
       server := server (print s w)\<rparr>)\<lparr>stdout := stdout w, requests := requests w,
       server := server w\<rparr>"
    by simp
  also have "\<dots> = (print s w)\<lparr>stdout := stdout w, requests := requests w,
       server := server w\<rparr>"
    by (simp only: a)
  also have "\<dots> = w"
    by (simp add: print_def)
  finally show ?thesis .
qed

lemma get_all_repos_short:
  assumes "\<forall>i<k. status_code (server w i) = 200 \<and> json (server w i) = Inr (pages i) \<and>
             per_page_const \<le> length (pages i)"
    and "status_code (server w k) = 200" "json (server w k) = Inr l" "length l < per_page_const"
  shows "\<exists>w'. get_all_repos org w = Some (Inr (concat (map pages [0..<k]) @ l), w')
           \<and> requests w' = requests w @ map (\<lambda>i. list_request org (Suc i)) [0..<Suc k]
           \<and> server w' = (\<lambda>i. server w (Suc k + i))
           \<and> w'\<lparr>stdout := stdout w, requests := requests w, server := server w\<rparr> = w"
proof -
  let ?w0 = "print (''Fetching repositories for organization: '' @ org) w"
  have "\<forall>i<k. status_code (server ?w0 i) = 200 \<and> json (server ?w0 i) = Inr (pages i) \<and>
             per_page_const \<le> length (pages i)"
    "status_code (server ?w0 k) = 200" "json (server ?w0 k) = Inr l" "length l < per_page_const"
    using assms by simp_all
  from loop_pages_short [OF this, of org 1 "[]"] obtain w1 where
    w1: "get_all_repos_loop org 1 [] ?w0 = Some (Inr (concat (map pages [0..<k]) @ l), w1)"
      "requests w1 = requests w @ map (\<lambda>i. list_request org (Suc i)) [0..<Suc k]"
      "server w1 = (\<lambda>i. server w (Suc k + i))"
      "w1\<lparr>stdout := stdout ?w0, requests := requests ?w0, server := server ?w0\<rparr> = ?w0"
    by auto
  let ?w' = "print (''Total repositories found: '' @
     str_nat (length (concat (map pages [0..<k]) @ l))) w1"
  have a: "get_all_repos org w = Some (Inr (concat (map pages [0..<k]) @ l), ?w')"
    using w1(1) by (simp add: get_all_repos_def)
  have b: "requests ?w' = requests w @ map (\<lambda>i. list_request org (Suc i)) [0..<Suc k]"
    "server ?w' = (\<lambda>i. server w (Suc k + i))"
    by (simp_all add: w1(2,3))
  have "?w'\<lparr>stdout := stdout w, requests := requests w, server := server w\<rparr> =
     w1\<lparr>stdout := stdout w, requests := requests w, server := server w\<rparr>"
    by (simp add: print_def)
  then have c: "?w'\<lparr>stdout := stdout w, requests := requests w, server := server w\<rparr> = w"
    by (simp only: print_frame [OF w1(4)])
  from a b c show ?thesis
    by blast
qed


lemma get_all_repos_stops:
  assumes "get_all_repos org w = Some (y, w')"
  shows "\<exists>k. (\<forall>i<k. status_code (server w i) = 200 \<and>
                  (\<exists>l. json (server w i) = Inr l \<and> per_page_const \<le> length l))
          \<and> requests w' = requests w @ map (\<lambda>i. list_request org (Suc i)) [0..<Suc k]
          \<and> server w' = (\<lambda>i. server w (Suc k + i))
          \<and> w'\<lparr>stdout := stdout w, requests := requests w, server := server w\<rparr> = w
          \<and> (case y of
                Inl e \<Rightarrow> status_code (server w k) \<noteq> 200 \<or> (\<exists>m. json (server w k) = Inl m)
              | Inr rs \<Rightarrow> status_code (server w k) = 200 \<and>
                  (\<exists>l. json (server w k) = Inr l \<and> length l < per_page_const))"
proof -
  let ?w0 = "print (''Fetching repositories for organization: '' @ org) w"
  from assms obtain w1 where
    w1: "get_all_repos_loop org 1 [] ?w0 = Some (y, w1)"
      "w' = w1 \<or> (\<exists>s. w' = print s w1)"
    by (auto simp: get_all_repos_def split: option.splits sum.splits prod.splits)
  have "\<exists>k. (\<forall>i<k. status_code (server w i) = 200 \<and>
                  (\<exists>l. json (server w i) = Inr l \<and> per_page_const \<le> length l))
       \<and> requests w1 = requests w @ map (\<lambda>i. list_request org (Suc i)) [0..<Suc k]
       \<and> server w1 = (\<lambda>i. server w (Suc k + i))
       \<and> w1\<lparr>stdout := stdout ?w0, requests := requests ?w0, server := server ?w0\<rparr> = ?w0
       \<and> (case y of
                Inl e \<Rightarrow> status_code (server w k) \<noteq> 200 \<or> (\<exists>m. json (server w k) = Inl m)
              | Inr rs \<Rightarrow> status_code (server w k) = 200 \<and>
                  (\<exists>l. json (server w k) = Inr l \<and> length l < per_page_const))"
    using loop_stops [OF w1(1)] by (cases y) simp_all
  then obtain k where
    k: "\<forall>i<k. status_code (server w i) = 200 \<and>
                  (\<exists>l. json (server w i) = Inr l \<and> per_page_const \<le> length l)"
       "requests w1 = requests w @ map (\<lambda>i. list_request org (Suc i)) [0..<Suc k]"
       "server w1 = (\<lambda>i. server w (Suc k + i))"
       "w1\<lparr>stdout := stdout ?w0, requests := requests ?w0, server := server ?w0\<rparr> = ?w0"
       "(case y of
                Inl e \<Rightarrow> status_code (server w k) \<noteq> 200 \<or> (\<exists>m. json (server w k) = Inl m)
              | Inr rs \<Rightarrow> status_code (server w k) = 200 \<and>
                  (\<exists>l. json (server w k) = Inr l \<and> length l < per_page_const))"
    by (elim exE conjE) (rule that)
  have a: "requests w' = requests w1" "server w' = server w1"
    "w'\<lparr>stdout := stdout w, requests := requests w, server := server w\<rparr> =
     w1\<lparr>stdout := stdout w, requests := requests w, server := server w\<rparr>"
    using w1(2) by (auto simp: print_def)
  from k(1) k(2,3) [folded a(1,2)] print_frame [OF k(4), folded a(3)] k(5) show ?thesis
    by blast
qed

text \<open>
  C1. Let the listing endpoint answer with pages (status 200, a body that decodes to a list)
  of which the first \<open>k\<close> are not shorter than the page size and the next one is shorter, or
  empty. Then \<open>get_all_repos\<close> returns, and what it returns is the concatenation of those
  \<open>k + 1\<close> pages, whose length is the sum of their lengths. It has sent exactly \<open>k + 1\<close>
  requests, for the pages \<open>1, 2, ..., k + 1\<close> in this order, each with page size 100, and
  has taken no further response from the server; of the world it has changed nothing else
  but the output.
\<close>

theorem get_all_repos_pagination:
  assumes "\<forall>i<k. status_code (server w i) = 200 \<and> json (server w i) = Inr (pages i) \<and>
             per_page_const \<le> length (pages i)"
    and "status_code (server w k) = 200"
    and "json (server w k) = Inr (pages k)"
    and "length (pages k) < per_page_const"
  shows "\<exists>w'. get_all_repos org_name w = Some (Inr (concat (map pages [0..<Suc k])), w')
           \<and> length (concat (map pages [0..<Suc k])) =
               sum_list (map (\<lambda>i. length (pages i)) [0..<Suc k])
           \<and> requests w' = requests w @ map (\<lambda>i. list_request org_name (Suc i)) [0..<Suc k]
           \<and> map (\<lambda>r. (page (params r), per_page (params r)))
                 (map (\<lambda>i. list_request org_name (Suc i)) [0..<Suc k]) =
               map (\<lambda>i. (Suc i, 100)) [0..<Suc k]
           \<and> server w' = (\<lambda>i. server w (Suc k + i))
           \<and> w'\<lparr>stdout := stdout w, requests := requests w, server := server w\<rparr> = w"
proof -
  have "length (concat (map pages [0..<Suc k])) =
          sum_list (map (\<lambda>i. length (pages i)) [0..<Suc k])"
    by (simp only: length_concat map_map o_def)
  moreover have "map (\<lambda>r. (page (params r), per_page (params r)))
                 (map (\<lambda>i. list_request org_name (Suc i)) [0..<Suc k]) =
               map (\<lambda>i. (Suc i, 100)) [0..<Suc k]"
    by (simp add: list_request_def per_page_const_def)
  ultimately show ?thesis
    using get_all_repos_short [OF assms, of org_name] by auto
qed

lemma upt3: "[0..<3] = [0, 1, 2]" "[0..<4] = [0, 1, 2, 3]"
  by (simp_all add: upt_rec)

theorem get_all_repos_pagination_witness:
  "(map_option fst (get_all_repos ''org'' world_237) =
      Some (Inr (replicate 100 repo0 @ replicate 100 repo0 @ replicate 37 repo0))
    \<and> length (replicate 100 repo0 @ replicate 100 repo0 @ replicate 37 repo0) = 237
    \<and> map_option (\<lambda>r. map (\<lambda>q. page (params q)) (requests (snd r)))
         (get_all_repos ''org'' world_237) = Some [1, 2, 3])
   \<and> (map_option fst (get_all_repos ''org'' world_300) =
         Some (Inr (replicate 100 repo0 @ replicate 100 repo0 @ replicate 100 repo0))
    \<and> map_option (\<lambda>r. map (\<lambda>q. page (params q)) (requests (snd r)))
         (get_all_repos ''org'' world_300) = Some [1, 2, 3, 4])"
proof -
  have a: "\<forall>i<2. status_code (server world_237 i) = 200 \<and>
             json (server world_237 i) = Inr (if i < 2 then replicate 100 repo0
               else replicate 37 repo0) \<and>
             per_page_const \<le> length (if i < 2 then replicate 100 repo0 else replicate 37 repo0)"
    by (simp add: world_237_def world0_def ok_page_def per_page_const_def)
  have b: "status_code (server world_237 2) = 200"
    "json (server world_237 2) =
       Inr (if (2::nat) < 2 then replicate 100 repo0 else replicate 37 repo0)"
    "length (if (2::nat) < 2 then replicate 100 repo0 else replicate 37 repo0) < per_page_const"
    by (simp_all add: world_237_def world0_def ok_page_def per_page_const_def)
  have c: "\<forall>i<3. status_code (server world_300 i) = 200 \<and>
             json (server world_300 i) = Inr (if i < 3 then replicate 100 repo0 else []) \<and>
             per_page_const \<le> length (if i < 3 then replicate 100 repo0 else [])"
    by (simp add: world_300_def world0_def ok_page_def per_page_const_def)
  have d: "status_code (server world_300 3) = 200"
    "json (server world_300 3) = Inr (if (3::nat) < 3 then replicate 100 repo0 else [])"
    "length (if (3::nat) < 3 then replicate 100 repo0 else []) < per_page_const"
    by (simp_all add: world_300_def world0_def ok_page_def per_page_const_def)
  have e: "requests world_237 = []" "requests world_300 = []"
    by (simp_all add: world_237_def world_300_def world0_def)
  from get_all_repos_pagination [OF a b, of "''org''"] obtain w1 where
    g: "get_all_repos ''org'' world_237 =
          Some (Inr (replicate 100 repo0 @ replicate 100 repo0 @ replicate 37 repo0), w1)"
       "requests w1 = map (\<lambda>i. list_request ''org'' (Suc i)) [0, 1, 2]"
    by (auto simp: upt3 e)
  from get_all_repos_pagination [OF c d, of "''org''"] obtain w2 where
    h: "get_all_repos ''org'' world_300 =
          Some (Inr (replicate 100 repo0 @ replicate 100 repo0 @ replicate 100 repo0), w2)"
       "requests w2 = map (\<lambda>i. list_request ''org'' (Suc i)) [0, 1, 2, 3]"
    by (auto simp: upt3 e)
  show ?thesis
    unfolding g(1) h(1) by (simp add: g(2) h(2) list_request_def)
qed

section \<open>Status codes\<close>







section \<open>Cloning one repository\<close>

lemma print_end_fields [simp]:
  "fs (print_end s w) = fs w" "environ (print_end s w) = environ w"
  "stdin (print_end s w) = stdin w" "server (print_end s w) = server w"
  "requests (print_end s w) = requests w" "child (print_end s w) = child w"
  "spawned (print_end s w) = spawned w" "mkdir (print_end s w) = mkdir w"
  "abspath (print_end s w) = abspath w" "stdout (print_end s w) = stdout w @ s"
  by (simp_all add: print_end_def)

lemma subprocess_run_fields [simp]:
  "fst (subprocess_run i w) = fst (child w i (fs w))"
  "fs (snd (subprocess_run i w)) = snd (child w i (fs w))"
  "spawned (snd (subprocess_run i w)) = spawned w @ [i]"
  "environ (snd (subprocess_run i w)) = environ w" "stdin (snd (subprocess_run i w)) = stdin w"
  "stdout (snd (subprocess_run i w)) = stdout w" "server (snd (subprocess_run i w)) = server w"
  "requests (snd (subprocess_run i w)) = requests w" "child (snd (subprocess_run i w)) = child w"
  "mkdir (snd (subprocess_run i w)) = mkdir w" "abspath (snd (subprocess_run i w)) = abspath w"
  by (simp_all add: subprocess_run_def)

lemma clone_repo_exists:
  assumes "path_join tdir (name repo) \<in> fs w"
  shows "clone_repo repo tdir use_ssh w =
     (True, print (warning_sign @ ''  '' @ name repo @ '' already exists, skipping...'') w)"
  using assms by (simp add: clone_repo_def Let_def)

lemma clone_repo_unfold:
  assumes "path_join tdir (name repo) \<notin> fs w"
  shows "clone_repo repo tdir use_ssh w =
     (let w1 = print (package_sign @ '' Cloning '' @ name repo @ ''...'') w;
          result = fst (child w (git_clone_call repo tdir use_ssh w) (fs w));
          w2 = snd (subprocess_run (git_clone_call repo tdir use_ssh w) w1)
      in case result of
           Completed returncode out err \<Rightarrow>
             if returncode = 0 then
               (True, print (check_mark @ '' Successfully cloned '' @ name repo) w2)
             else if sublist ''Permission denied'' (strip err) \<and> use_ssh then
               (False,
                print ''   Try: ssh-add ~/.ssh/id_ed25519''
                  (print (cross_mark @ '' SSH authentication failed for '' @ name repo @
                     ''. Make sure ssh-agent is running and key is added.'') w2))
             else
               (False,
                print (cross_mark @ '' Failed to clone '' @ name repo @ '': '' @ strip err) w2)
         | TimeoutExpired \<Rightarrow>
             (False, print (cross_mark @ '' Timeout while cloning '' @ name repo) w2)
         | FileNotFoundError \<Rightarrow>
             (False, print (cross_mark @ '' Git is not installed or not in PATH'') w2)
         | OtherException e \<Rightarrow>
             (False, print (cross_mark @ '' Error cloning '' @ name repo @ '': '' @ e) w2))"
  using assms
  by (cases use_ssh)
    (simp_all add: clone_repo_def Let_def git_clone_call_def split: completion.splits)

lemma clone_repo_spawned:
  assumes "path_join tdir (name repo) \<notin> fs w"
  shows "spawned (snd (clone_repo repo tdir use_ssh w)) =
           spawned w @ [git_clone_call repo tdir use_ssh w]"
  using assms
  by (simp add: clone_repo_unfold Let_def split: completion.splits)

lemma clone_repo_frame:
  "environ (snd (clone_repo repo tdir use_ssh w)) = environ w"
  "stdin (snd (clone_repo repo tdir use_ssh w)) = stdin w"
  "server (snd (clone_repo repo tdir use_ssh w)) = server w"
  "requests (snd (clone_repo repo tdir use_ssh w)) = requests w"
  "child (snd (clone_repo repo tdir use_ssh w)) = child w"
  "mkdir (snd (clone_repo repo tdir use_ssh w)) = mkdir w"
  "abspath (snd (clone_repo repo tdir use_ssh w)) = abspath w"
  by (simp_all add: clone_repo_def Let_def split: completion.splits)

lemma clone_repo_completed_ok:
  assumes "path_join tdir (name repo) \<notin> fs w"
    and "fst (child w (git_clone_call repo tdir use_ssh w) (fs w)) = Completed 0 out err"
  shows "fst (clone_repo repo tdir use_ssh w)"
    and "stdout (snd (clone_repo repo tdir use_ssh w)) =
       stdout w @ cloning_line repo @
       check_mark @ '' Successfully cloned '' @ name repo @ [CHR 0x0A]"
  using assms
  by (simp_all add: clone_repo_unfold Let_def cloning_line_def)

lemma clone_repo_completed_fail:
  assumes "path_join tdir (name repo) \<notin> fs w"
    and "fst (child w (git_clone_call repo tdir use_ssh w) (fs w)) = Completed rc out err"
    and "rc \<noteq> 0"
  shows "\<not> fst (clone_repo repo tdir use_ssh w)"
    and "\<not> (sublist ''Permission denied'' (strip err) \<and> use_ssh) \<Longrightarrow>
       stdout (snd (clone_repo repo tdir use_ssh w)) =
       stdout w @ cloning_line repo @
       cross_mark @ '' Failed to clone '' @ name repo @ '': '' @ strip err @ [CHR 0x0A]"
    and "sublist ''Permission denied'' (strip err) \<and> use_ssh \<Longrightarrow>
       stdout (snd (clone_repo repo tdir use_ssh w)) =
       stdout w @ cloning_line repo @
       cross_mark @ '' SSH authentication failed for '' @ name repo @
         ''. Make sure ssh-agent is running and key is added.'' @ [CHR 0x0A] @
       ''   Try: ssh-add ~/.ssh/id_ed25519'' @ [CHR 0x0A]"
  using assms
  by (simp_all add: clone_repo_unfold Let_def cloning_line_def)

lemma clone_repo_timeout:
  assumes "path_join tdir (name repo) \<notin> fs w"
    and "fst (child w (git_clone_call repo tdir use_ssh w) (fs w)) = TimeoutExpired"
  shows "\<not> fst (clone_repo repo tdir use_ssh w)"
    and "stdout (snd (clone_repo repo tdir use_ssh w)) =
       stdout w @ cloning_line repo @
       cross_mark @ '' Timeout while cloning '' @ name repo @ [CHR 0x0A]"
  using assms
  by (simp_all add: clone_repo_unfold Let_def cloning_line_def)

lemma clone_repo_missing:
  assumes "path_join tdir (name repo) \<notin> fs w"
    and "fst (child w (git_clone_call repo tdir use_ssh w) (fs w)) = FileNotFoundError"
  shows "\<not> fst (clone_repo repo tdir use_ssh w)"
    and "stdout (snd (clone_repo repo tdir use_ssh w)) =
       stdout w @ cloning_line repo @
       cross_mark @ '' Git is not installed or not in PATH'' @ [CHR 0x0A]"
  using assms
  by (simp_all add: clone_repo_unfold Let_def cloning_line_def)

lemma path_out_repo0: "path_join ''out'' (name repo0) = ''out/repo1''"
  by code_simp

text \<open>
  C3. When the destination path exists, \<open>clone_repo\<close> returns \<open>True\<close> at once: it prints
  that the repository is skipped and does nothing else, so it calls \<open>subprocess.run\<close> not at
  all and leaves the disk as it is. The clone loop then goes on with the counter of successes
  one higher and the counter of failures as it was.
\<close>

theorem clone_repo_already_exists:
  assumes "path_join tdir (name repo) \<in> fs w"
  shows "clone_repo repo tdir use_ssh w =
           (True, print (warning_sign @ ''  '' @ name repo @ '' already exists, skipping...'') w)
       \<and> spawned (snd (clone_repo repo tdir use_ssh w)) = spawned w
       \<and> fs (snd (clone_repo repo tdir use_ssh w)) = fs w
       \<and> clone_loop tdir use_ssh len i (repo # rest) successful failed w =
           clone_loop tdir use_ssh len (i + 1) rest (successful + 1) failed
             (print (warning_sign @ ''  '' @ name repo @ '' already exists, skipping...'')
                (print_end (CHR 0x0A # ''['' @ str_nat i @ ''/'' @ str_nat len @ ''] '') w))
       \<and> fst (clone_loop tdir use_ssh len i [repo] successful failed w) =
           (successful + 1, failed)"
proof -
  have "path_join tdir (name repo) \<in>
      fs (print_end (CHR 0x0A # ''['' @ str_nat i @ ''/'' @ str_nat len @ ''] '') w)"
    using assms by simp
  from clone_repo_exists [OF this] clone_repo_exists [OF assms] show ?thesis
    by (simp add: Let_def)
qed

theorem clone_repo_already_exists_witness:
  "path_join ''out'' (name repo0) \<in> fs world_exists
   \<and> fst (clone_repo repo0 ''out'' False world_exists)
   \<and> spawned (snd (clone_repo repo0 ''out'' False world_exists)) = []
   \<and> fst (clone_loop ''out'' False 1 1 [repo0] 0 0 world_exists) = (1, 0)"
proof -
  have a: "path_join ''out'' (name repo0) \<in> fs world_exists"
    by (simp add: path_out_repo0 world_exists_def)
  have b: "spawned world_exists = []"
    by (simp add: world_exists_def world0_def)
  show ?thesis
    using a clone_repo_already_exists [OF a, of False 1 1 "[]" 0 0] by (simp add: b)
qed

text \<open>
  C7. When the destination path does not exist, \<open>clone_repo\<close> calls \<open>subprocess.run\<close>
  exactly once, with the arguments \<open>git\<close>, \<open>clone\<close>, the SSH URL if \<open>use_ssh\<close> and the HTTPS
  URL otherwise, and the destination path, and with a timeout of 300 seconds. The
  destination path is \<open>os.path.join(target_dir, repo['name'])\<close>: the two joined by a slash
  when the directory is not empty and has no trailing slash and the name is not absolute.
\<close>

theorem clone_repo_invokes_git:
  assumes "path_join tdir (name repo) \<notin> fs w"
  shows "\<exists>call. spawned (snd (clone_repo repo tdir use_ssh w)) = spawned w @ [call]
       \<and> argv call = [''git'', ''clone'', if use_ssh then ssh_url repo else clone_url repo,
                        path_join tdir (name repo)]
       \<and> timeout call = Some 300
       \<and> (tdir \<noteq> [] \<and> \<not> suffix ''/'' tdir \<and> \<not> prefix ''/'' (name repo) \<longrightarrow>
            path_join tdir (name repo) = tdir @ ''/'' @ name repo)"
  using clone_repo_spawned [OF assms, of use_ssh]
  by (simp add: git_clone_call_def path_join_def)

theorem clone_repo_invokes_git_witness:
  "map argv (spawned (snd (clone_repo repo0 ''out'' False world0))) =
     [[''git'', ''clone'', ''https://github.com/org/repo1.git'', ''out/repo1'']]
   \<and> map argv (spawned (snd (clone_repo repo0 ''out'' True world0))) =
     [[''git'', ''clone'', ''git@github.com:org/repo1.git'', ''out/repo1'']]
   \<and> map timeout (spawned (snd (clone_repo repo0 ''out'' True world0))) = [Some 300]"
proof -
  have a: "path_join ''out'' (name repo0) \<notin> fs world0"
    by (simp add: world0_def)
  have b: "spawned world0 = []"
    by (simp add: world0_def)
  have c: "ssh_url repo0 = ''git@github.com:org/repo1.git''"
    "clone_url repo0 = ''https://github.com/org/repo1.git''"
    by (simp_all add: repo0_def)
  show ?thesis
    using clone_repo_invokes_git [OF a, of False] clone_repo_invokes_git [OF a, of True]
    by (auto simp: b c path_out_repo0)
qed

text \<open>
  C10. The environment given to the child process of \<open>clone_repo\<close> is the environment of
  the program, with \<open>GIT_SSH_COMMAND\<close> set to
  \<open>ssh -o StrictHostKeyChecking=no -o BatchMode=yes\<close> when \<open>use_ssh\<close> holds and with no
  change otherwise. Every other variable has in it the value, or the absence, that it has in
  the program's environment, and the program's own environment stays as it was.
\<close>

theorem clone_repo_environment:
  assumes "path_join tdir (name repo) \<notin> fs w"
  shows "\<exists>call. spawned (snd (clone_repo repo tdir use_ssh w)) = spawned w @ [call]
       \<and> env call =
           Some (if use_ssh
                 then (environ w)(''GIT_SSH_COMMAND'' \<mapsto>
                        ''ssh -o StrictHostKeyChecking=no -o BatchMode=yes'')
                 else environ w)
       \<and> (\<forall>e k. env call = Some e \<and> k \<noteq> ''GIT_SSH_COMMAND'' \<longrightarrow> e k = environ w k)
       \<and> (\<not> use_ssh \<longrightarrow> env call = Some (environ w))
       \<and> environ (snd (clone_repo repo tdir use_ssh w)) = environ w"
  using clone_repo_spawned [OF assms, of use_ssh]
  by (auto simp: git_clone_call_def git_ssh_command_def clone_repo_frame)

theorem clone_repo_environment_witness:
  "map (\<lambda>c. map_option (\<lambda>e. (e ''GIT_SSH_COMMAND'', e ''PATH'', e ''HOME'')) (env c))
     (spawned (snd (clone_repo repo0 ''out'' True world_env))) =
     [Some (Some ''ssh -o StrictHostKeyChecking=no -o BatchMode=yes'', Some ''/usr/bin'', None)]
   \<and> map (\<lambda>c. map_option (\<lambda>e. (e ''GIT_SSH_COMMAND'', e ''PATH'', e ''HOME'')) (env c))
     (spawned (snd (clone_repo repo0 ''out'' False world_env))) =
     [Some (Some ''ssh -v'', Some ''/usr/bin'', None)]"
proof -
  have a: "path_join ''out'' (name repo0) \<notin> fs world_env"
    by (simp add: world_env_def world0_def)
  have b: "spawned world_env = []"
    by (simp add: world_env_def world0_def)
  have c: "environ world_env = [''PATH'' \<mapsto> ''/usr/bin'', ''GIT_SSH_COMMAND'' \<mapsto> ''ssh -v'']"
    by (simp add: world_env_def world0_def)
  from clone_repo_environment [OF a, of True] obtain call1 where
    c1: "spawned (snd (clone_repo repo0 ''out'' True world_env)) = [call1]"
      "env call1 = Some ((environ world_env)(''GIT_SSH_COMMAND'' \<mapsto>
         ''ssh -o StrictHostKeyChecking=no -o BatchMode=yes''))"
    unfolding b by (elim exE conjE) simp
  from clone_repo_environment [OF a, of False] obtain call2 where
    c2: "spawned (snd (clone_repo repo0 ''out'' False world_env)) = [call2]"
      "env call2 = Some (environ world_env)"
    unfolding b by (elim exE conjE) simp
  show ?thesis
    unfolding c1 c2 by (simp add: c1(2) c2(2) c)
qed

text \<open>
  C6, as the code has it. Let \<open>clone_repo\<close> run the child process. If the child ends with
  exit code 0, \<open>clone_repo\<close> returns \<open>True\<close> and reports success. If it ends with another
  exit code, \<open>clone_repo\<close> returns \<open>False\<close>, and what it reports is the child's error
  output, stripped of surrounding whitespace; unless \<open>use_ssh\<close> holds and that text contains
  \<open>Permission denied\<close>: then it reports, in place of the error output, that SSH
  authentication failed and that the key should be added to the ssh-agent. If the timeout
  expires, \<open>clone_repo\<close> returns \<open>False\<close> and reports the timeout.
\<close>

theorem clone_repo_outcomes:
  assumes "path_join tdir (name repo) \<notin> fs w"
  shows "(\<forall>out err.
            fst (child w (git_clone_call repo tdir use_ssh w) (fs w)) = Completed 0 out err \<longrightarrow>
            fst (clone_repo repo tdir use_ssh w) \<and>
            stdout (snd (clone_repo repo tdir use_ssh w)) =
              stdout w @ cloning_line repo @
              check_mark @ '' Successfully cloned '' @ name repo @ [CHR 0x0A])
       \<and> (\<forall>rc out err.
            fst (child w (git_clone_call repo tdir use_ssh w) (fs w)) = Completed rc out err \<and>
            rc \<noteq> 0 \<longrightarrow>
            \<not> fst (clone_repo repo tdir use_ssh w) \<and>
            stdout (snd (clone_repo repo tdir use_ssh w)) =
              stdout w @ cloning_line repo @
              (if sublist ''Permission denied'' (strip err) \<and> use_ssh then
                 cross_mark @ '' SSH authentication failed for '' @ name repo @
                 ''. Make sure ssh-agent is running and key is added.'' @ [CHR 0x0A] @
                 ''   Try: ssh-add ~/.ssh/id_ed25519'' @ [CHR 0x0A]
               else
                 cross_mark @ '' Failed to clone '' @ name repo @ '': '' @ strip err @
                 [CHR 0x0A]))
       \<and> (fst (child w (git_clone_call repo tdir use_ssh w) (fs w)) = TimeoutExpired \<longrightarrow>
            \<not> fst (clone_repo repo tdir use_ssh w) \<and>
            stdout (snd (clone_repo repo tdir use_ssh w)) =
              stdout w @ cloning_line repo @
              cross_mark @ '' Timeout while cloning '' @ name repo @ [CHR 0x0A])"
  using clone_repo_completed_ok [OF assms, of use_ssh]
    clone_repo_completed_fail [OF assms, of use_ssh]
    clone_repo_timeout [OF assms, of use_ssh]
  by auto

lemma world_child_fields:
  "fs (world_child c) = {}" "stdout (world_child c) = []"
  "child (world_child c) = (\<lambda>i f. (c, f))"
  by (simp_all add: world_child_def world0_def)

lemma strip_not_found:
  "strip err_not_found = ''fatal: repository not found''"
  by code_simp

lemma strip_denied:
  "strip err_denied =
     ''git@github.com: Permission denied (publickey).''"
  by code_simp

lemma sublist_not_found: "\<not> sublist ''Permission denied'' ''fatal: repository not found''"
  by code_simp

lemma sublist_denied:
  "sublist ''Permission denied'' ''git@github.com: Permission denied (publickey).''"
  by code_simp

lemma name_repo0: "name repo0 = ''repo1''"
  by (simp add: repo0_def)

lemma cloning_line_repo0:
  "cloning_line repo0 = package_sign @ '' Cloning repo1...'' @ [CHR 0x0A]"
  by (simp add: cloning_line_def repo0_def)

theorem clone_repo_outcomes_witness:
  "fst (clone_repo repo0 ''out'' False (world_child (Completed 0 [] [])))
   \<and> stdout (snd (clone_repo repo0 ''out'' False (world_child (Completed 0 [] [])))) =
       package_sign @ '' Cloning repo1...'' @ [CHR 0x0A] @
       check_mark @ '' Successfully cloned repo1'' @ [CHR 0x0A]
   \<and> \<not> fst (clone_repo repo0 ''out'' False
         (world_child (Completed 128 [] err_not_found)))
   \<and> stdout (snd (clone_repo repo0 ''out'' False
         (world_child (Completed 128 [] err_not_found)))) =
       package_sign @ '' Cloning repo1...'' @ [CHR 0x0A] @
       cross_mark @ '' Failed to clone repo1: fatal: repository not found'' @ [CHR 0x0A]
   \<and> \<not> fst (clone_repo repo0 ''out'' True (world_child TimeoutExpired))
   \<and> stdout (snd (clone_repo repo0 ''out'' True (world_child TimeoutExpired))) =
       package_sign @ '' Cloning repo1...'' @ [CHR 0x0A] @
       cross_mark @ '' Timeout while cloning repo1'' @ [CHR 0x0A]"
proof -
  have a: "path_join ''out'' (name repo0) \<notin> fs (world_child c)" for c
    by (simp add: world_child_fields)
  have n: "name repo0 = ''repo1''"
    by (simp add: repo0_def)
  note t = clone_repo_outcomes [OF a]
  have 1: "fst (clone_repo repo0 ''out'' False (world_child (Completed 0 [] [])))
   \<and> stdout (snd (clone_repo repo0 ''out'' False (world_child (Completed 0 [] [])))) =
       package_sign @ '' Cloning repo1...'' @ [CHR 0x0A] @
       check_mark @ '' Successfully cloned repo1'' @ [CHR 0x0A]"
    using t [of "Completed 0 [] []" False, THEN conjunct1]
    by (simp add: world_child_fields cloning_line_repo0 n)
  have 2: "\<not> fst (clone_repo repo0 ''out'' False
         (world_child (Completed 128 [] err_not_found)))
   \<and> stdout (snd (clone_repo repo0 ''out'' False
         (world_child (Completed 128 [] err_not_found)))) =
       package_sign @ '' Cloning repo1...'' @ [CHR 0x0A] @
       cross_mark @ '' Failed to clone repo1: fatal: repository not found'' @ [CHR 0x0A]"
    using t [of "Completed 128 [] err_not_found" False,
      THEN conjunct2, THEN conjunct1, rule_format,
      of 128 "[]" err_not_found]
    by (simp add: world_child_fields cloning_line_repo0 n strip_not_found)
  have 3: "\<not> fst (clone_repo repo0 ''out'' True (world_child TimeoutExpired))
   \<and> stdout (snd (clone_repo repo0 ''out'' True (world_child TimeoutExpired))) =
       package_sign @ '' Cloning repo1...'' @ [CHR 0x0A] @
       cross_mark @ '' Timeout while cloning repo1'' @ [CHR 0x0A]"
    using t [of TimeoutExpired True, THEN conjunct2, THEN conjunct2]
    by (simp add: world_child_fields cloning_line_repo0 n)
  from 1 2 3 show ?thesis
    by (intro conjI) (elim conjE, assumption)+
qed

text \<open>
  The claim has the error output of the child as the reason of every failure, with guidance
  added to it under SSH. The code reports one or the other: under SSH, when the error output
  contains \<open>Permission denied\<close>, the guidance is all that is reported, and the error output
  is not.
\<close>

theorem permission_denied_counterexample:
  "\<not> fst (clone_repo repo0 ''out'' True (world_child (Completed 128 [] err_denied)))
   \<and> stdout (snd (clone_repo repo0 ''out'' True (world_child (Completed 128 [] err_denied)))) =
       package_sign @ '' Cloning repo1...'' @ [CHR 0x0A] @
       cross_mark @ '' SSH authentication failed for repo1. '' @
         ''Make sure ssh-agent is running and key is added.'' @ [CHR 0x0A] @
       ''   Try: ssh-add ~/.ssh/id_ed25519'' @ [CHR 0x0A]
   \<and> \<not> sublist ''Permission denied (publickey)''
        (stdout (snd (clone_repo repo0 ''out'' True (world_child (Completed 128 [] err_denied)))))"
proof -
  let ?w = "world_child (Completed 128 [] err_denied)"
  have a: "path_join ''out'' (name repo0) \<notin> fs ?w"
    by (simp add: world_child_fields)
  have b: "fst (child ?w (git_clone_call repo0 ''out'' True ?w) (fs ?w)) =
      Completed 128 [] err_denied"
    by (simp add: world_child_fields)
  have c: "(128::int) \<noteq> 0"
    by simp
  have d: "sublist ''Permission denied'' (strip err_denied) \<and> True"
    by (simp only: strip_denied sublist_denied)
  have e: "stdout (snd (clone_repo repo0 ''out'' True ?w)) =
       package_sign @ '' Cloning repo1...'' @ [CHR 0x0A] @
       cross_mark @ '' SSH authentication failed for repo1. '' @
         ''Make sure ssh-agent is running and key is added.'' @ [CHR 0x0A] @
       ''   Try: ssh-add ~/.ssh/id_ed25519'' @ [CHR 0x0A]"
    using clone_repo_completed_fail(3) [OF a b c d]
    by (simp add: world_child_fields cloning_line_repo0 name_repo0)
  have f: "\<not> sublist ''Permission denied (publickey)''
       (package_sign @ '' Cloning repo1...'' @ [CHR 0x0A] @
       cross_mark @ '' SSH authentication failed for repo1. '' @
         ''Make sure ssh-agent is running and key is added.'' @ [CHR 0x0A] @
       ''   Try: ssh-add ~/.ssh/id_ed25519'' @ [CHR 0x0A])"
    by code_simp
  from clone_repo_completed_fail(1) [OF a b c] e f show ?thesis
    by (simp only: simp_thms)
qed

section \<open>The run\<close>

lemma frame_fields:
  assumes "w'\<lparr>stdout := a, requests := b, server := c\<rparr> = w"
  shows "fs w' = fs w" "environ w' = environ w" "stdin w' = stdin w" "child w' = child w"
    "spawned w' = spawned w" "mkdir w' = mkdir w" "abspath w' = abspath w"
proof -
  have "fs (w'\<lparr>stdout := a, requests := b, server := c\<rparr>) = fs w"
    "environ (w'\<lparr>stdout := a, requests := b, server := c\<rparr>) = environ w"
    "stdin (w'\<lparr>stdout := a, requests := b, server := c\<rparr>) = stdin w"
    "child (w'\<lparr>stdout := a, requests := b, server := c\<rparr>) = child w"
    "spawned (w'\<lparr>stdout := a, requests := b, server := c\<rparr>) = spawned w"
    "mkdir (w'\<lparr>stdout := a, requests := b, server := c\<rparr>) = mkdir w"
    "abspath (w'\<lparr>stdout := a, requests := b, server := c\<rparr>) = abspath w"
    by (simp_all only: assms)
  then show "fs w' = fs w" "environ w' = environ w" "stdin w' = stdin w" "child w' = child w"
    "spawned w' = spawned w" "mkdir w' = mkdir w" "abspath w' = abspath w"
    by simp_all
qed

lemma get_all_repos_frame:
  assumes "get_all_repos org w = Some (y, w')"
  shows "fs w' = fs w" "environ w' = environ w" "stdin w' = stdin w" "child w' = child w"
    "spawned w' = spawned w" "mkdir w' = mkdir w" "abspath w' = abspath w"
proof -
  from get_all_repos_stops [OF assms] have
    "w'\<lparr>stdout := stdout w, requests := requests w, server := server w\<rparr> = w"
    by blast
  from frame_fields [OF this]
  show "fs w' = fs w" "environ w' = environ w" "stdin w' = stdin w" "child w' = child w"
    "spawned w' = spawned w" "mkdir w' = mkdir w" "abspath w' = abspath w"
    by simp_all
qed

lemma get_all_repos_raise_first:
  assumes "status_code (server w 0) \<noteq> 200 \<or> (\<exists>m. json (server w 0) = Inl m)"
  shows "get_all_repos org w =
           Some (Inl (if status_code (server w 0) = 404 then ValueError (not_found_msg org)
                      else if status_code (server w 0) = 403 then ValueError rate_limit_msg
                      else if status_code (server w 0) \<noteq> 200
                        then ValueError (api_error_msg (server w 0))
                      else JSONDecodeError (projl (json (server w 0)))),
             snd (session_get (list_request org 1)
               (print (''Fetching page '' @ str_nat 1 @ ''...'')
                  (print (''Fetching repositories for organization: '' @ org) w))))"
proof -
  let ?w0 = "print (''Fetching repositories for organization: '' @ org) w"
  have "status_code (server ?w0 0) \<noteq> 200 \<or> (\<exists>m. json (server ?w0 0) = Inl m)"
    using assms by simp
  from loop_raise [OF this, of org 1 "[]"] show ?thesis
    by (simp add: get_all_repos_def)
qed

lemma get_all_repos_single:
  assumes "status_code (server w 0) = 200" "json (server w 0) = Inr l" "l \<noteq> []"
    "length l < per_page_const"
  shows "get_all_repos org w =
           Some (Inr l,
             print (''Total repositories found: '' @ str_nat (length l))
               (print (''Found '' @ str_nat (length l) @ '' repositories on page '' @ str_nat 1)
                  (snd (session_get (list_request org 1)
                     (print (''Fetching page '' @ str_nat 1 @ ''...'')
                        (print (''Fetching repositories for organization: '' @ org) w))))))"
proof -
  let ?w0 = "print (''Fetching repositories for organization: '' @ org) w"
  have "status_code (server ?w0 0) = 200" "json (server ?w0 0) = Inr l"
    "length l < per_page_const"
    using assms by simp_all
  from loop_short [OF this, of org 1 "[]"] assms(3) show ?thesis
    by (simp add: get_all_repos_def)
qed

lemma clone_results_length:
  "length (clone_results tdir use_ssh len i rs w) = length rs"
  by (induction rs arbitrary: i w) (simp_all add: Let_def)

lemma clone_loop_counts:
  "fst (clone_loop tdir use_ssh len i rs s f w) =
     (s + count_list (clone_results tdir use_ssh len i rs w) True,
      f + count_list (clone_results tdir use_ssh len i rs w) False)"
  by (induction rs arbitrary: i s f w) (simp_all add: Let_def)

lemma count_list_bool: "count_list bs True + count_list bs False = length bs"
  by (induction bs) auto

lemma print_summary_stdout:
  "stdout (print_summary n s f w) =
     stdout w @ [CHR 0x0A] @ replicate 50 CHR ''='' @ [CHR 0x0A] @
     ''SUMMARY'' @ [CHR 0x0A] @ replicate 50 CHR ''='' @ [CHR 0x0A] @
     ''Total repositories: '' @ str_nat n @ [CHR 0x0A] @
     ''Successfully cloned: '' @ str_nat s @ [CHR 0x0A] @
     ''Failed: '' @ str_nat f @ [CHR 0x0A] @
     (if f > 0 then
        [CHR 0x0A] @ warning_sign @ ''  '' @ str_nat f @
        '' repositories failed to clone. Check the output above for details.'' @ [CHR 0x0A]
      else [CHR 0x0A] @ party_popper @ '' All repositories cloned successfully!'' @ [CHR 0x0A])"
  by (simp add: print_summary_def Let_def)

lemma pull_try_raise:
  assumes "get_all_repos org w = Some (Inl e, w1)"
  shows "pull_try org tdir use_ssh incf inca w =
           Some (SystemExit 1, print (cross_mark @ '' Error: '' @ str_exn e) w1)"
  using assms by (simp add: pull_try_def)

lemma pull_try_return:
  assumes "get_all_repos org w = Some (Inr repos, w1)"
  shows "pull_try org tdir use_ssh incf inca w =
           Some (Returned,
             print_summary
               (length (filter (\<lambda>r. \<not> (\<not> incf \<and> fork r) \<and> \<not> (\<not> inca \<and> archived r)) repos))
               (count_list (clone_results tdir use_ssh
                  (length (filter (\<lambda>r. \<not> (\<not> incf \<and> fork r) \<and> \<not> (\<not> inca \<and> archived r)) repos)) 1
                  (filter (\<lambda>r. \<not> (\<not> incf \<and> fork r) \<and> \<not> (\<not> inca \<and> archived r)) repos)
                  (print (CHR 0x0A # ''Will clone '' @ str_nat
                      (length (filter (\<lambda>r. \<not> (\<not> incf \<and> fork r) \<and> \<not> (\<not> inca \<and> archived r))
                         repos)) @ '' repositories'')
                     (snd (filter_repos incf inca repos [] w1)))) True)
               (count_list (clone_results tdir use_ssh
                  (length (filter (\<lambda>r. \<not> (\<not> incf \<and> fork r) \<and> \<not> (\<not> inca \<and> archived r)) repos)) 1
                  (filter (\<lambda>r. \<not> (\<not> incf \<and> fork r) \<and> \<not> (\<not> inca \<and> archived r)) repos)
                  (print (CHR 0x0A # ''Will clone '' @ str_nat
                      (length (filter (\<lambda>r. \<not> (\<not> incf \<and> fork r) \<and> \<not> (\<not> inca \<and> archived r))
                         repos)) @ '' repositories'')
                     (snd (filter_repos incf inca repos [] w1)))) False)
               (snd (clone_loop tdir use_ssh
                  (length (filter (\<lambda>r. \<not> (\<not> incf \<and> fork r) \<and> \<not> (\<not> inca \<and> archived r)) repos)) 1
                  (filter (\<lambda>r. \<not> (\<not> incf \<and> fork r) \<and> \<not> (\<not> inca \<and> archived r)) repos) 0 0
                  (print (CHR 0x0A # ''Will clone '' @ str_nat
                      (length (filter (\<lambda>r. \<not> (\<not> incf \<and> fork r) \<and> \<not> (\<not> inca \<and> archived r))
                         repos)) @ '' repositories'')
                     (snd (filter_repos incf inca repos [] w1))))))"
  using assms by (simp add: pull_try_def Let_def filter_repos_acc clone_loop_counts)

lemma check_ssh_agent_spawned:
  "spawned (snd (check_ssh_agent w)) = spawned w @ [ssh_add_call]"
  by (simp add: check_ssh_agent_def Let_def ssh_add_call_def subprocess_run_def
      split: completion.splits)

lemma input_spawned: "spawned (snd (input s w)) = spawned w"
  by (simp add: input_def Let_def print_end_def split: list.splits)

lemma ssh_check_spawned:
  "spawned (snd (ssh_check use_ssh w)) = spawned w @ (if use_ssh then [ssh_add_call] else [])"
  by (simp add: ssh_check_def Let_def check_ssh_agent_spawned input_spawned split: sum.splits)

lemma pull_head_spawned:
  assumes "pull_head tdir use_ssh w = (None, w3)"
  shows "spawned w3 = spawned w @ (if use_ssh then [ssh_add_call] else [])"
proof -
  from assms obtain f where f: "mkdir w tdir (fs w) = Inr f"
    "ssh_check use_ssh (print (''Cloning repositories to: '' @ abspath w tdir) (w\<lparr>fs := f\<rparr>)) =
       (None, w3)"
    by (auto simp: pull_head_def makedirs_def split: sum.splits)
  have "spawned w3 = spawned (snd (ssh_check use_ssh
      (print (''Cloning repositories to: '' @ abspath w tdir) (w\<lparr>fs := f\<rparr>))))"
    by (simp only: f(2) snd_conv)
  then show ?thesis
    by (simp only: ssh_check_spawned) simp
qed


text \<open>
  C8. Let the run reach the listing, in the world \<open>w3\<close>, and let the listing raise there,
  leaving the world \<open>w4\<close>. Then \<open>pull_all_repos\<close> prints the error and leaves through
  \<open>sys.exit(1)\<close>, and that line is all it does after the listing: nothing is filtered, no
  summary is printed, and no child process is started. The listing itself starts none and
  leaves the disk as it is, so that the only child process of the whole run is the
  \<open>ssh-add -l\<close> of the SSH check, when \<open>use_ssh\<close> holds: \<open>git clone\<close> is never called.
\<close>

theorem listing_failure_aborts:
  assumes "pull_head (case tdir of None \<Rightarrow> org | Some d \<Rightarrow> d) use_ssh w = (None, w3)"
    and "get_all_repos org w3 = Some (Inl e, w4)"
  shows "pull_all_repos org tdir use_ssh include_forks include_archived w =
           Some (SystemExit 1, print (cross_mark @ '' Error: '' @ str_exn e) w4)
       \<and> stdout (print (cross_mark @ '' Error: '' @ str_exn e) w4) =
           stdout w4 @ cross_mark @ '' Error: '' @ str_exn e @ [CHR 0x0A]
       \<and> spawned (print (cross_mark @ '' Error: '' @ str_exn e) w4) =
           spawned w @ (if use_ssh then [ssh_add_call] else [])
       \<and> spawned w4 = spawned w3
       \<and> fs (print (cross_mark @ '' Error: '' @ str_exn e) w4) = fs w3"
  using assms pull_try_raise [OF assms(2)] get_all_repos_frame(1,5) [OF assms(2)]
    pull_head_spawned [OF assms(1)]
  by (simp add: pull_all_repos_def Let_def)

text \<open>
  C9. Let the listing return the repositories \<open>repos\<close>, so that the run reaches the clone
  loop. Let \<open>kept\<close> be the repositories that pass the filter and \<open>results\<close> the values that
  \<open>clone_repo\<close> returns for them in the loop, one for each. Then \<open>pull_all_repos\<close> returns
  after printing the summary, in which the total is the number of repositories kept, the
  number of successes is the number of \<open>True\<close> among the results and the number of failures
  the number of \<open>False\<close>; the two add up to the total. The summary is the seven lines
  given.
\<close>

theorem summary_counts:
  assumes "get_all_repos org w = Some (Inr repos, w1)"
    and "kept = filter (\<lambda>r. \<not> (\<not> include_forks \<and> fork r) \<and> \<not> (\<not> include_archived \<and> archived r))
           repos"
    and "w3 = print (CHR 0x0A # ''Will clone '' @ str_nat (length kept) @ '' repositories'')
           (snd (filter_repos include_forks include_archived repos [] w1))"
    and "results = clone_results tdir use_ssh (length kept) 1 kept w3"
  shows "pull_try org tdir use_ssh include_forks include_archived w =
           Some (Returned,
             print_summary (length kept) (count_list results True) (count_list results False)
               (snd (clone_loop tdir use_ssh (length kept) 1 kept 0 0 w3)))
       \<and> length results = length kept
       \<and> count_list results True + count_list results False = length kept
       \<and> (\<forall>n s f w'. stdout (print_summary n s f w') =
            stdout w' @ [CHR 0x0A] @ replicate 50 CHR ''='' @ [CHR 0x0A] @
            ''SUMMARY'' @ [CHR 0x0A] @ replicate 50 CHR ''='' @ [CHR 0x0A] @
            ''Total repositories: '' @ str_nat n @ [CHR 0x0A] @
            ''Successfully cloned: '' @ str_nat s @ [CHR 0x0A] @
            ''Failed: '' @ str_nat f @ [CHR 0x0A] @
            (if f > 0 then
               [CHR 0x0A] @ warning_sign @ ''  '' @ str_nat f @
               '' repositories failed to clone. Check the output above for details.'' @
               [CHR 0x0A]
             else
               [CHR 0x0A] @ party_popper @ '' All repositories cloned successfully!'' @
               [CHR 0x0A]))"
proof -
  have a: "pull_try org tdir use_ssh include_forks include_archived w =
           Some (Returned,
             print_summary (length kept) (count_list results True) (count_list results False)
               (snd (clone_loop tdir use_ssh (length kept) 1 kept 0 0 w3)))"
    unfolding assms(2-4) by (rule pull_try_return [OF assms(1)])
  have b: "length results = length kept"
    unfolding assms(4) by (rule clone_results_length)
  have c: "count_list results True + count_list results False = length kept"
    using count_list_bool [of results] b by simp
  from a b c print_summary_stdout show ?thesis
    by blast
qed


lemma str_nat_small: "str_nat 0 = ''0''" "str_nat 1 = ''1''" "str_nat 3 = ''3''"
  by code_simp+

lemma str_nat_Suc_0: "str_nat (Suc 0) = ''1''"
  using str_nat_small(2) by simp

lemma pull_head_plain:
  assumes "mkdir w d (fs w) = Inr f"
  shows "pull_head d False w =
           (None, print (''Cloning repositories to: '' @ abspath w d) (w\<lparr>fs := f\<rparr>))"
  using assms by (simp add: pull_head_def makedirs_def ssh_check_def)

theorem listing_failure_aborts_witness:
  "map_option fst (pull_all_repos ''org'' None False True True (world_status 404 [])) =
     Some (SystemExit 1)
   \<and> map_option (\<lambda>r. spawned (snd r))
       (pull_all_repos ''org'' None False True True (world_status 404 [])) = Some []
   \<and> map_option (\<lambda>r. stdout (snd r))
       (pull_all_repos ''org'' None False True True (world_status 404 [])) =
     Some (''Cloning repositories to: /home/org'' @ [CHR 0x0A] @
       ''Fetching repositories for organization: org'' @ [CHR 0x0A] @
       ''Fetching page 1...'' @ [CHR 0x0A] @
       cross_mark @ '' Error: Organization '' @ [CHR 0x27] @ ''org'' @ [CHR 0x27] @
       '' not found or not accessible'' @ [CHR 0x0A])"
proof -
  let ?w = "world_status 404 []"
  let ?w3 = "print (''Cloning repositories to: '' @ abspath ?w ''org'') (?w\<lparr>fs := {''org''}\<rparr>)"
  let ?w4 = "snd (session_get (list_request ''org'' 1)
               (print (''Fetching page '' @ str_nat 1 @ ''...'')
                  (print (''Fetching repositories for organization: '' @ ''org'') ?w3)))"
  have f: "mkdir ?w ''org'' (fs ?w) = Inr {''org''}" "spawned ?w = []" "stdout ?w = []"
    "abspath ?w ''org'' = ''/home/org''" "status_code (server ?w 0) = 404"
    by (simp_all add: world_status_def world0_def error_page_def)
  have h: "pull_head (case None of None \<Rightarrow> ''org'' | Some d \<Rightarrow> d) False ?w = (None, ?w3)"
    using pull_head_plain [OF f(1)] by simp
  have "status_code (server ?w3 0) \<noteq> 200 \<or> (\<exists>m. json (server ?w3 0) = Inl m)"
    by (simp add: f(5))
  from get_all_repos_raise_first [OF this, of "''org''"]
  have g: "get_all_repos ''org'' ?w3 = Some (Inl (ValueError (not_found_msg ''org'')), ?w4)"
    by (simp add: f(5))
  from listing_failure_aborts [OF h g, of True True] show ?thesis
    by (simp add: f str_nat_Suc_0 not_found_msg_def)
qed

lemma str_nat_Suc_3: "str_nat (Suc (Suc (Suc 0))) = ''3''"
  using str_nat_small(3) by (simp add: numeral_3_eq_3)

lemma path_out_repo1: "path_join ''out'' ''repo1'' = ''out/repo1''"
  by code_simp

lemma world_three_fields:
  "fs world_three = {}" "stdout world_three = []" "spawned world_three = []"
  "child world_three = (\<lambda>i f. (Completed 0 [] [], f))"
  "server world_three 0 = \<lparr>status_code = 200, text = [], json = Inr [repo0, repo2, repo3]\<rparr>"
  by (simp_all add: world_three_def world0_def)

theorem summary_counts_witness:
  "map_option fst (pull_try ''org'' ''out'' False False False world_three) = Some Returned
   \<and> map_option (\<lambda>r. map argv (spawned (snd r)))
       (pull_try ''org'' ''out'' False False False world_three) =
     Some [[''git'', ''clone'', ''https://github.com/org/repo1.git'', ''out/repo1'']]
   \<and> map_option (\<lambda>r. stdout (snd r))
       (pull_try ''org'' ''out'' False False False world_three) =
     Some (''Fetching repositories for organization: org'' @ [CHR 0x0A] @
       ''Fetching page 1...'' @ [CHR 0x0A] @
       ''Found 3 repositories on page 1'' @ [CHR 0x0A] @
       ''Total repositories found: 3'' @ [CHR 0x0A] @
       ''Skipping fork: repo2'' @ [CHR 0x0A] @
       ''Skipping archived repo: repo3'' @ [CHR 0x0A] @
       [CHR 0x0A] @ ''Will clone 1 repositories'' @ [CHR 0x0A] @
       [CHR 0x0A] @ ''[1/1] '' @ package_sign @ '' Cloning repo1...'' @ [CHR 0x0A] @
       check_mark @ '' Successfully cloned repo1'' @ [CHR 0x0A] @
       [CHR 0x0A] @ replicate 50 CHR ''='' @ [CHR 0x0A] @
       ''SUMMARY'' @ [CHR 0x0A] @
       replicate 50 CHR ''='' @ [CHR 0x0A] @
       ''Total repositories: 1'' @ [CHR 0x0A] @
       ''Successfully cloned: 1'' @ [CHR 0x0A] @
       ''Failed: 0'' @ [CHR 0x0A] @
       [CHR 0x0A] @ party_popper @ '' All repositories cloned successfully!'' @ [CHR 0x0A])"
proof -
  have "status_code (server world_three 0) = 200"
    "json (server world_three 0) = Inr [repo0, repo2, repo3]"
    "[repo0, repo2, repo3] \<noteq> []" "length [repo0, repo2, repo3] < per_page_const"
    by (simp_all add: world_three_fields per_page_const_def)
  note g = get_all_repos_single [OF this, of "''org''"]
  note t = summary_counts [OF g refl refl refl, where include_forks = False
      and include_archived = False and tdir = "''out''" and use_ssh = False, THEN conjunct1]
  show ?thesis
    unfolding t
    by (simp add: repo0_def repo2_def repo3_def Let_def clone_repo_def print_summary_def
        world_three_fields str_nat_Suc_0 str_nat_Suc_3 str_nat_small path_out_repo1)
qed










end
